theory Spec2Isabelle
  imports Main "HOL-Library.Word"
begin

section \<open>The binding tool of go-tagexpr (binding/bind.go)\<close>

text \<open>
  A shallow embedding of \<^verbatim>\<open>binding/bind.go\<close>. The file is the whole of the
  sources at hand; what it calls but does not define (the reflection layer, the
  tag-expression virtual machine, the validator, the plan's own helper methods and the
  per-source binders of a descriptor) is gathered in one record of collaborators,
  \<open>env\<close>, and every function of the file takes that record as its first argument.
  Mutation of the binding tool (its plan cache) and of the destination record (the store
  \<open>'w\<close>) is explicit state passing; a Go \<^verbatim>\<open>error\<close> result is an \<open>option\<close> or the
  left summand of a sum.
\<close>

subsection \<open>Data\<close>

text \<open>\<^verbatim>\<open>type Level uint8\<close> with the constants \<^verbatim>\<open>OnlyFirst = iota\<close>,
  \<^verbatim>\<open>FirstAndTagged\<close>, \<^verbatim>\<open>Any\<close>.\<close>

type_synonym Level = "8 word"

definition OnlyFirst :: Level where
  "OnlyFirst = 0"

definition FirstAndTagged :: Level where
  "FirstAndTagged = 1"

definition Any :: Level where
  "Any = 2"

text \<open>The kinds of \<^verbatim>\<open>reflect.Kind\<close> that \<^verbatim>\<open>structValueOf\<close> tells apart.\<close>

datatype Kind = Invalid | Struct | Ptr | Interface | OtherKind

text \<open>Modelled from the spec: the declaration of the source constants is not in
  \<^verbatim>\<open>bind.go\<close>. The source of a descriptor is one of query, path, header, cookie, body,
  raw body, or auto: the constants \<^verbatim>\<open>auto\<close>, \<^verbatim>\<open>query\<close>, \<^verbatim>\<open>path\<close>, \<^verbatim>\<open>header\<close>,
  \<^verbatim>\<open>cookie\<close>, \<^verbatim>\<open>body\<close> and \<^verbatim>\<open>raw_body\<close> that \<^verbatim>\<open>bind.go\<close> assigns to
  \<^verbatim>\<open>paramInfo.in\<close> and switches on.\<close>

datatype in_t = auto | query | path | header | cookie | body | raw_body

text \<open>\<^verbatim>\<open>tagexpr.ExprSelector\<close> is a string type: line 175 converts a string to it.\<close>

type_synonym ExprSelector = string

type_synonym 'e errFactory = "string \<Rightarrow> string \<Rightarrow> 'e"

text \<open>\<^verbatim>\<open>url.Values\<close> and \<^verbatim>\<open>http.Header\<close> are \<^verbatim>\<open>map[string][]string\<close>; the cookies
  of a request are name and value pairs; the body is a byte slice.\<close>

type_synonym Values = "string \<Rightarrow> string list option"
type_synonym Cookies = "(string \<times> string) list"
type_synonym Bytes = "8 word list"

text \<open>Modelled from the spec: the declaration of \<^verbatim>\<open>paramInfo\<close> is not in \<^verbatim>\<open>bind.go\<close>. A field
  descriptor identifies one field of the destination record and records its source, its
  external parameter name and whether it is required. \<^verbatim>\<open>bind.go\<close> writes its fields
  \<^verbatim>\<open>in\<close>, \<^verbatim>\<open>name\<close> and \<^verbatim>\<open>required\<close>; the field it describes and the error factory are
  what \<^verbatim>\<open>getOrAddParam(fh, b.bindErrFactory)\<close> is handed.\<close>

record 'e paramInfo =
  fieldSelector :: string
  p_bindErrFactory :: "'e errFactory"
  p_in :: in_t
  name :: string
  required :: bool

text \<open>Modelled from the spec: the declaration of \<^verbatim>\<open>receiver\<close> is not in \<^verbatim>\<open>bind.go\<close>. The
  binding plan is the ordered sequence of the descriptors and the aggregate flags; the
  fields are those \<^verbatim>\<open>bind.go\<close> reads and writes: \<^verbatim>\<open>params\<close> and the seven flags.\<close>

record 'e receiver =
  params :: "'e paramInfo list"
  hasAuto :: bool
  hasQuery :: bool
  hasCookie :: bool
  hasPath :: bool
  hasBody :: bool
  hasRawBody :: bool
  hasVd :: bool

text \<open>What the plan builder reads of a \<^verbatim>\<open>tagexpr.FieldHandler\<close>: the result of
  \<^verbatim>\<open>FieldSelector().Split()\<close>, of \<^verbatim>\<open>StringSelector()\<close>, of \<^verbatim>\<open>Value(true).CanSet()\<close>
  and of \<^verbatim>\<open>EvalFuncs()\<close>. The last is a Go map; it is given as the list of its entries
  in the order the \<^verbatim>\<open>range\<close> loop of line 186 meets them, and an evaluation
  function \<^verbatim>\<open>func() interface{}\<close> is given as the value \<open>'r\<close> it returns.\<close>

record 'r FieldHandler =
  FieldSelector_Split :: "string list \<times> string"
  StringSelector :: string
  Value_CanSet :: bool
  EvalFuncs :: "(ExprSelector \<times> 'r) list"

text \<open>The binding tool, \<^verbatim>\<open>Binding\<close>. The plan cache \<^verbatim>\<open>recvs\<close> is a map from runtime
  type identities to plans.\<close>

record ('e, 'vd, 'tid) Binding =
  level :: Level
  vd :: 'vd
  recvs :: "'tid \<rightharpoonup> 'e receiver"
  bindErrFactory :: "'e errFactory"

subsection \<open>Collaborators\<close>

text \<open>
  Everything \<^verbatim>\<open>bind.go\<close> calls and does not define. The type variables are:
  \<open>'a\<close> the values of \<^verbatim>\<open>interface{}\<close>, \<open>'rv\<close> those of \<^verbatim>\<open>reflect.Value\<close>, \<open>'e\<close> errors,
  \<open>'vd\<close> the validator, \<open>'tid\<close> runtime type identities, \<open>'x\<close> the compiled
  \<^verbatim>\<open>*tagexpr.TagExpr\<close> of a value, \<open>'r\<close> results of evaluation functions, \<open>'w\<close> the
  store that holds the destination record, \<open>'req\<close> requests, \<open>'codec\<close> body codecs and
  \<open>'pp\<close> path parameters.
  \<^item> \<open>asValue\<close> is the type assertion \<^verbatim>\<open>structPointer.(reflect.Value)\<close>.
  \<^item> \<open>RunZero vd value\<close> is \<^verbatim>\<open>b.vd.VM().Run(reflect.New(value.Type()).Elem())\<close> and
    \<open>Run vd value w\<close> is \<^verbatim>\<open>b.vd.VM().Run(value)\<close>.
  \<^item> \<open>fieldsOf expr\<close> lists the field handlers that \<^verbatim>\<open>expr.RangeFields\<close> hands to its
    callback, in its order.
  \<^item> \<open>es_Name\<close> and \<open>es_String\<close> are the methods \<^verbatim>\<open>Name\<close> and \<^verbatim>\<open>String\<close> of
    \<^verbatim>\<open>tagexpr.ExprSelector\<close>.
  \<^item> A binder of a descriptor writes into the destination record, so it is a
    function on the store; it returns \<^verbatim>\<open>(bool, error)\<close> or \<^verbatim>\<open>error\<close> as in the calls of
    lines 275 to 290.
\<close>

record ('a, 'rv, 'e, 'vd, 'tid, 'x, 'r, 'w, 'req, 'codec, 'pp) env =
  asValue :: "'a \<Rightarrow> 'rv option"
  ValueOf :: "'a \<Rightarrow> 'rv"
  Kind :: "'rv \<Rightarrow> Kind"
  CanAddr :: "'rv \<Rightarrow> bool"
  IsValid :: "'rv \<Rightarrow> bool"
  derefValue :: "'rv \<Rightarrow> 'rv"
  RuntimeTypeID :: "'rv \<Rightarrow> 'tid"
  RunZero :: "'vd \<Rightarrow> 'rv \<Rightarrow> 'e + 'x"
  Run :: "'vd \<Rightarrow> 'rv \<Rightarrow> 'w \<Rightarrow> 'e + 'x"
  fieldsOf :: "'x \<Rightarrow> 'r FieldHandler list"
  es_Name :: "ExprSelector \<Rightarrow> string"
  es_String :: "ExprSelector \<Rightarrow> string"
  FakeBool :: "'r \<Rightarrow> bool"
  MatchExprName :: string
  ErrMsgExprName :: string
  getParamName :: "'r \<Rightarrow> string \<Rightarrow> string \<times> string"
  initParams :: "'e receiver \<Rightarrow> 'e receiver"
  newDefaultErrorFactory :: "string \<Rightarrow> 'e errFactory"
  vd_SetErrorFactory :: "'e errFactory \<Rightarrow> 'vd \<Rightarrow> 'vd"
  vd_Validate :: "'vd \<Rightarrow> 'rv \<Rightarrow> 'w \<Rightarrow> 'e option"
  getBodyCodec :: "'e receiver \<Rightarrow> 'req \<Rightarrow> 'codec"
  jsonBody :: 'codec
  formBody :: 'codec
  getBodyBytes :: "'e receiver \<Rightarrow> 'req \<Rightarrow> bool \<Rightarrow> 'e + Bytes"
  getPostForm :: "'e receiver \<Rightarrow> 'req \<Rightarrow> bool \<Rightarrow> 'e + Values"
  getQuery :: "'e receiver \<Rightarrow> 'req \<Rightarrow> Values"
  getCookies :: "'e receiver \<Rightarrow> 'req \<Rightarrow> Cookies"
  req_Header :: "'req \<Rightarrow> Values"
  bindQuery :: "'e paramInfo \<Rightarrow> 'x \<Rightarrow> Values \<Rightarrow> 'w \<Rightarrow> (bool \<times> 'e option) \<times> 'w"
  bindPath :: "'e paramInfo \<Rightarrow> 'x \<Rightarrow> 'pp \<Rightarrow> 'w \<Rightarrow> (bool \<times> 'e option) \<times> 'w"
  bindHeader :: "'e paramInfo \<Rightarrow> 'x \<Rightarrow> Values \<Rightarrow> 'w \<Rightarrow> (bool \<times> 'e option) \<times> 'w"
  bindCookie :: "'e paramInfo \<Rightarrow> 'x \<Rightarrow> Cookies \<Rightarrow> 'w \<Rightarrow> 'e option \<times> 'w"
  bindBody :: "'e paramInfo \<Rightarrow> 'x \<Rightarrow> 'codec \<Rightarrow> Values \<Rightarrow> Bytes \<Rightarrow> 'w \<Rightarrow> (bool \<times> 'e option) \<times> 'w"
  bindRawBody :: "'e paramInfo \<Rightarrow> 'x \<Rightarrow> Bytes \<Rightarrow> 'w \<Rightarrow> 'e option \<times> 'w"

subsection \<open>Configuration: \<^verbatim>\<open>SetLevel\<close> and \<^verbatim>\<open>SetErrorFactory\<close>\<close>

definition SetLevel :: "Level \<Rightarrow> ('e, 'vd, 'tid) Binding \<Rightarrow> ('e, 'vd, 'tid) Binding" where
  "SetLevel lv b =
     (if lv = OnlyFirst \<or> lv = FirstAndTagged \<or> lv = Any
      then b\<lparr>level := lv\<rparr>
      else b\<lparr>level := FirstAndTagged\<rparr>)"

definition defaultValidatingErrFactory ::
  "('a, 'rv, 'e, 'vd, 'tid, 'x, 'r, 'w, 'req, 'codec, 'pp) env \<Rightarrow> 'e errFactory" where
  "defaultValidatingErrFactory env = newDefaultErrorFactory env ''invalid parameter''"

definition defaultBindErrFactory ::
  "('a, 'rv, 'e, 'vd, 'tid, 'x, 'r, 'w, 'req, 'codec, 'pp) env \<Rightarrow> 'e errFactory" where
  "defaultBindErrFactory env = newDefaultErrorFactory env ''binding failed''"

text \<open>A Go function value may be \<^verbatim>\<open>nil\<close>: the two arguments are options.\<close>

definition SetErrorFactory ::
  "('a, 'rv, 'e, 'vd, 'tid, 'x, 'r, 'w, 'req, 'codec, 'pp) env \<Rightarrow>
   'e errFactory option \<Rightarrow> 'e errFactory option \<Rightarrow>
   ('e, 'vd, 'tid) Binding \<Rightarrow> ('e, 'vd, 'tid) Binding" where
  "SetErrorFactory env bindErrFactory0 validatingErrFactory0 b =
     (let bindErrFactory1 =
            (case bindErrFactory0 of None \<Rightarrow> defaultBindErrFactory env | Some f \<Rightarrow> f);
          validatingErrFactory1 =
            (case validatingErrFactory0 of
               None \<Rightarrow> defaultValidatingErrFactory env | Some g \<Rightarrow> g)
      in b\<lparr>bindErrFactory := bindErrFactory1,
            vd := vd_SetErrorFactory env validatingErrFactory1 (vd b)\<rparr>)"

subsection \<open>\<^verbatim>\<open>structValueOf\<close>\<close>

definition structValueOf ::
  "('a, 'rv, 'e, 'vd, 'tid, 'x, 'r, 'w, 'req, 'codec, 'pp) env \<Rightarrow>
   ('e, 'vd, 'tid) Binding \<Rightarrow> 'a \<Rightarrow> 'e + 'rv" where
  "structValueOf env b structPointer =
     (let v = (case asValue env structPointer of
                 Some v0 \<Rightarrow> v0 | None \<Rightarrow> ValueOf env structPointer)
      in if Kind env v \<noteq> Ptr
         then Inl (bindErrFactory b [] ''structPointer must be a non-nil struct pointer'')
         else (let v' = derefValue env v
               in if Kind env v' \<noteq> Struct \<or> \<not> CanAddr env v' \<or> \<not> IsValid env v'
                  then Inl (bindErrFactory b []
                              ''structPointer must be a non-nil struct pointer'')
                  else Inr v'))"

subsection \<open>Plan building: \<^verbatim>\<open>getObjOrPrepare\<close>\<close>

text \<open>Modelled from the spec: \<^verbatim>\<open>receiver.getOrAddParam\<close> is not in \<^verbatim>\<open>bind.go\<close>. The plan
  holds one descriptor per field: the descriptor of the field is returned when the plan has
  one, and a fresh one is appended otherwise. The pointer the Go method returns is the
  index of the descriptor in \<^verbatim>\<open>params\<close>. A fresh descriptor holds \<^verbatim>\<open>auto\<close>, the empty
  name and \<^verbatim>\<open>false\<close> until the callback writes \<^verbatim>\<open>required\<close> (line 195) and \<^verbatim>\<open>in\<close> and
  \<^verbatim>\<open>name\<close> (lines 231 and 232), which it does on every path that returns \<^verbatim>\<open>true\<close>.\<close>

fun indexOf :: "('p \<Rightarrow> bool) \<Rightarrow> 'p list \<Rightarrow> nat option" where
  "indexOf P [] = None"
| "indexOf P (p # ps) =
     (if P p then Some 0 else (case indexOf P ps of None \<Rightarrow> None | Some i \<Rightarrow> Some (Suc i)))"

definition getOrAddParam ::
  "'e receiver \<Rightarrow> 'r FieldHandler \<Rightarrow> 'e errFactory \<Rightarrow> nat \<times> 'e receiver" where
  "getOrAddParam recv fh factory =
     (case indexOf (\<lambda>p. fieldSelector p = StringSelector fh) (params recv) of
        Some i \<Rightarrow> (i, recv)
      | None \<Rightarrow>
          (length (params recv),
           recv\<lparr>params := params recv @
             [\<lparr>fieldSelector = StringSelector fh, p_bindErrFactory = factory,
               p_in = auto, name = [], required = False\<rparr>]\<rparr>))"

text \<open>Modelled from the spec: \<^verbatim>\<open>TagExpr.RangeFields\<close> is not in \<^verbatim>\<open>bind.go\<close>. It visits the
  fields in order and stops as soon as the callback returns \<^verbatim>\<open>false\<close>.\<close>

fun RangeFields :: "('f \<Rightarrow> 's \<Rightarrow> bool \<times> 's) \<Rightarrow> 'f list \<Rightarrow> 's \<Rightarrow> 's" where
  "RangeFields f [] s = s"
| "RangeFields f (fh # fhs) s =
     (case f fh s of (True, s') \<Rightarrow> RangeFields f fhs s' | (False, s') \<Rightarrow> s')"

text \<open>Lines 156 to 162: the loop that looks for a recognized directive. The \<^verbatim>\<open>break\<close>
  leaves the \<^verbatim>\<open>switch\<close> only, so every entry is visited.\<close>

definition canHandle ::
  "('a, 'rv, 'e, 'vd, 'tid, 'x, 'r, 'w, 'req, 'codec, 'pp) env \<Rightarrow>
   (ExprSelector \<times> 'r) list \<Rightarrow> bool" where
  "canHandle env evals =
     foldl (\<lambda>c (es, eval).
              if es_Name env es \<in> {''raw_body'', ''body'', ''query'', ''path'', ''header'',
                                    ''cookie'', ''required''}
              then True else c)
           False evals"

text \<open>Lines 146 to 170: the \<^verbatim>\<open>switch b.level\<close>; \<open>True\<close> when the callback returns
  \<^verbatim>\<open>true\<close> there without handling the field.\<close>

definition skipField ::
  "('a, 'rv, 'e, 'vd, 'tid, 'x, 'r, 'w, 'req, 'codec, 'pp) env \<Rightarrow>
   Level \<Rightarrow> 'r FieldHandler \<Rightarrow> bool" where
  "skipField env lv fh =
     (let (paths, fname) = FieldSelector_Split fh
      in if lv = OnlyFirst then length paths > 0
         else if lv = FirstAndTagged
              then length paths > 0 \<and> \<not> canHandle env (EvalFuncs fh)
              else False)"

text \<open>The source cases of the \<^verbatim>\<open>switch es.Name()\<close> of lines 198 to 214: the flag set
  and the value given to \<^verbatim>\<open>in\<close>.\<close>

definition sourceCase :: "string \<Rightarrow> 'e receiver \<Rightarrow> ('e receiver \<times> in_t) option" where
  "sourceCase n recv =
     (if n = ''raw_body'' then Some (recv\<lparr>hasRawBody := True\<rparr>, raw_body)
      else if n = ''body'' then Some (recv\<lparr>hasBody := True\<rparr>, body)
      else if n = ''query'' then Some (recv\<lparr>hasQuery := True\<rparr>, query)
      else if n = ''path'' then Some (recv\<lparr>hasPath := True\<rparr>, path)
      else if n = ''header'' then Some (recv, header)
      else if n = ''cookie'' then Some (recv\<lparr>hasCookie := True\<rparr>, cookie)
      else None)"

text \<open>Lines 185 to 225: the loop \<^verbatim>\<open>L\<close> over the sub-expressions of a field. The state is
  the plan, \<^verbatim>\<open>in\<close>, \<^verbatim>\<open>name\<close>, \<^verbatim>\<open>errExprSelector\<close> and \<^verbatim>\<open>errMsg\<close>; \<open>i\<close> is the descriptor
  \<^verbatim>\<open>p\<close>. \<open>evalStep\<close> is the body of the loop for one entry of the map: its first
  component is \<open>False\<close> when the callback returns \<^verbatim>\<open>false\<close> from inside the loop, and
  \<open>True\<close> when the loop goes on (\<^verbatim>\<open>continue L\<close>, or the end of the body).\<close>

type_synonym 'e loopState = "'e receiver \<times> in_t \<times> string \<times> ExprSelector \<times> string"

definition evalStep ::
  "('a, 'rv, 'e, 'vd, 'tid, 'x, 'r, 'w, 'req, 'codec, 'pp) env \<Rightarrow> nat \<Rightarrow>
   ExprSelector \<times> 'r \<Rightarrow> 'e loopState \<Rightarrow> bool \<times> 'e loopState" where
  "evalStep env i entry s =
     (case entry of (es, eval) \<Rightarrow>
      case s of (recv, in0, fname, errExprSelector, errMsg) \<Rightarrow>
      if es_Name env es = MatchExprName env
      then (True, (recv\<lparr>hasVd := True\<rparr>, in0, fname, errExprSelector, errMsg))
      else if es_Name env es = ErrMsgExprName env
      then (True, s)
      else if es_Name env es = ''required''
      then (True,
            (recv\<lparr>params := (params recv)
                     [i := (params recv ! i)\<lparr>required := FakeBool env eval\<rparr>]\<rparr>,
             in0, fname, errExprSelector, errMsg))
      else (case sourceCase (es_Name env es) recv of
              None \<Rightarrow> (True, s)
            | Some (recv', in1) \<Rightarrow>
                (case getParamName env eval fname of
                   (fname', errMsg') \<Rightarrow>
                     if errMsg' \<noteq> []
                     then (False, (recv', in1, fname', es, errMsg'))
                     else (True, (recv', in1, fname', errExprSelector, errMsg')))))"

fun evalsLoop ::
  "('a, 'rv, 'e, 'vd, 'tid, 'x, 'r, 'w, 'req, 'codec, 'pp) env \<Rightarrow> nat \<Rightarrow>
   (ExprSelector \<times> 'r) list \<Rightarrow> 'e loopState \<Rightarrow> bool \<times> 'e loopState" where
  "evalsLoop env i [] s = (True, s)"
| "evalsLoop env i (entry # rest) s =
     (case evalStep env i entry s of
        (True, s') \<Rightarrow> evalsLoop env i rest s'
      | (False, s') \<Rightarrow> (False, s'))"

text \<open>Lines 142 to 234: the callback of \<^verbatim>\<open>RangeFields\<close>. Its state is the plan,
  \<^verbatim>\<open>errExprSelector\<close> and \<^verbatim>\<open>errMsg\<close>.\<close>

type_synonym 'e walkState = "'e receiver \<times> ExprSelector \<times> string"

definition fieldCallback ::
  "('a, 'rv, 'e, 'vd, 'tid, 'x, 'r, 'w, 'req, 'codec, 'pp) env \<Rightarrow>
   ('e, 'vd, 'tid) Binding \<Rightarrow> 'r FieldHandler \<Rightarrow> 'e walkState \<Rightarrow> bool \<times> 'e walkState" where
  "fieldCallback env b fh s =
     (case s of (recv, errExprSelector, errMsg) \<Rightarrow>
      if skipField env (level b) fh then (True, s)
      else if \<not> Value_CanSet fh
      then (False, (recv, StringSelector fh, ''field cannot be set: '' @ StringSelector fh))
      else
        (case getOrAddParam recv fh (bindErrFactory b) of
           (i, recv1) \<Rightarrow>
             (case evalsLoop env i (EvalFuncs fh)
                     (recv1, auto, snd (FieldSelector_Split fh), errExprSelector, errMsg) of
                (False, (recv2, in1, fname, errExprSelector', errMsg')) \<Rightarrow>
                  (False, (recv2, errExprSelector', errMsg'))
              | (True, (recv2, in1, fname, errExprSelector', errMsg')) \<Rightarrow>
                  (let recv3 = (if in1 = auto
                                then recv2\<lparr>hasBody := True, hasAuto := True\<rparr>
                                else recv2)
                   in (True,
                       (recv3\<lparr>params := (params recv3)
                                 [i := (params recv3 ! i)\<lparr>p_in := in1, name := fname\<rparr>]\<rparr>,
                        errExprSelector', errMsg'))))))"

definition newReceiver :: "'e receiver" where
  "newReceiver =
     \<lparr>params = [], hasAuto = False, hasQuery = False, hasCookie = False, hasPath = False,
      hasBody = False, hasRawBody = False, hasVd = False\<rparr>"

text \<open>Lines 136 to 234: the walk over the fields of the compiled expression, from an
  empty plan and empty \<^verbatim>\<open>errExprSelector\<close> and \<^verbatim>\<open>errMsg\<close>.\<close>

definition walkFields ::
  "('a, 'rv, 'e, 'vd, 'tid, 'x, 'r, 'w, 'req, 'codec, 'pp) env \<Rightarrow>
   ('e, 'vd, 'tid) Binding \<Rightarrow> 'x \<Rightarrow> 'e walkState" where
  "walkFields env b expr =
     RangeFields (fieldCallback env b) (fieldsOf env expr) (newReceiver, [], [])"

text \<open>Lines 132 to 240: the build of a plan, up to and including \<^verbatim>\<open>recv.initParams()\<close>.\<close>

definition prepare ::
  "('a, 'rv, 'e, 'vd, 'tid, 'x, 'r, 'w, 'req, 'codec, 'pp) env \<Rightarrow>
   ('e, 'vd, 'tid) Binding \<Rightarrow> 'rv \<Rightarrow> 'e + 'e receiver" where
  "prepare env b val =
     (case RunZero env (vd b) val of
        Inl err \<Rightarrow> Inl err
      | Inr expr \<Rightarrow>
          (case walkFields env b expr of
             (recv, errExprSelector, errMsg) \<Rightarrow>
               if errMsg \<noteq> []
               then Inl (bindErrFactory b (es_String env errExprSelector) errMsg)
               else Inr (initParams env recv)))"

text \<open>Lines 125 to 244: the cache is read first, and written after a successful build
  only.\<close>

definition getObjOrPrepare ::
  "('a, 'rv, 'e, 'vd, 'tid, 'x, 'r, 'w, 'req, 'codec, 'pp) env \<Rightarrow>
   ('e, 'vd, 'tid) Binding \<Rightarrow> 'rv \<Rightarrow> ('e + 'e receiver) \<times> ('e, 'vd, 'tid) Binding" where
  "getObjOrPrepare env b val =
     (let runtimeTypeID = RuntimeTypeID env val
      in case recvs b runtimeTypeID of
           Some i \<Rightarrow> (Inr i, b)
         | None \<Rightarrow>
             (case prepare env b val of
                Inl err \<Rightarrow> (Inl err, b)
              | Inr recv \<Rightarrow> (Inr recv, b\<lparr>recvs := (recvs b)(runtimeTypeID \<mapsto> recv)\<rparr>)))"

subsection \<open>Dispatch: \<^verbatim>\<open>bind\<close>\<close>

text \<open>What \<^verbatim>\<open>bind\<close> computes once per request before the loop (lines 252 to 270).\<close>

record ('x, 'req, 'codec, 'pp) sources =
  s_expr :: 'x
  s_req :: 'req
  s_pathParams :: 'pp
  s_bodyCodec :: 'codec
  s_bodyBytes :: Bytes
  s_postForm :: Values
  s_queryValues :: Values
  s_cookies :: Cookies

text \<open>Lines 273 to 292: the \<^verbatim>\<open>switch param.in\<close> of one descriptor; the result is
  \<^verbatim>\<open>err\<close> and the store.\<close>

definition bindParam ::
  "('a, 'rv, 'e, 'vd, 'tid, 'x, 'r, 'w, 'req, 'codec, 'pp) env \<Rightarrow>
   ('x, 'req, 'codec, 'pp) sources \<Rightarrow> 'e paramInfo \<Rightarrow> 'w \<Rightarrow> 'e option \<times> 'w" where
  "bindParam env src param w =
     (case p_in param of
        query \<Rightarrow>
          (case bindQuery env param (s_expr src) (s_queryValues src) w of
             ((found, err), w') \<Rightarrow> (err, w'))
      | path \<Rightarrow>
          (case bindPath env param (s_expr src) (s_pathParams src) w of
             ((found, err), w') \<Rightarrow> (err, w'))
      | header \<Rightarrow>
          (case bindHeader env param (s_expr src) (req_Header env (s_req src)) w of
             ((found, err), w') \<Rightarrow> (err, w'))
      | cookie \<Rightarrow> bindCookie env param (s_expr src) (s_cookies src) w
      | body \<Rightarrow>
          (case bindBody env param (s_expr src) (s_bodyCodec src) (s_postForm src)
                  (s_bodyBytes src) w of
             ((found, err), w') \<Rightarrow> (err, w'))
      | raw_body \<Rightarrow> bindRawBody env param (s_expr src) (s_bodyBytes src) w
      | auto \<Rightarrow>
          (case bindBody env param (s_expr src) (s_bodyCodec src) (s_postForm src)
                  (s_bodyBytes src) w of
             ((found, err), w1) \<Rightarrow>
               if \<not> found
               then (case bindQuery env param (s_expr src) (s_queryValues src) w1 of
                       ((found2, err2), w2) \<Rightarrow> (err2, w2))
               else (err, w1)))"

text \<open>Lines 272 to 297: the loop over \<^verbatim>\<open>recv.params\<close>, left at the first error.\<close>

fun bindParams ::
  "('a, 'rv, 'e, 'vd, 'tid, 'x, 'r, 'w, 'req, 'codec, 'pp) env \<Rightarrow>
   ('x, 'req, 'codec, 'pp) sources \<Rightarrow> 'e paramInfo list \<Rightarrow> 'w \<Rightarrow> 'e option \<times> 'w" where
  "bindParams env src [] w = (None, w)"
| "bindParams env src (param # rest) w =
     (case bindParam env src param w of
        (Some err, w') \<Rightarrow> (Some err, w')
      | (None, w') \<Rightarrow> bindParams env src rest w')"

text \<open>Lines 252 to 270: the per-request values, or the error that ends \<^verbatim>\<open>bind\<close> before
  the loop.\<close>

definition gather ::
  "('a, 'rv, 'e, 'vd, 'tid, 'x, 'r, 'w, 'req, 'codec, 'pp) env \<Rightarrow>
   ('e, 'vd, 'tid) Binding \<Rightarrow> 'e receiver \<Rightarrow> 'rv \<Rightarrow> 'req \<Rightarrow> 'pp \<Rightarrow> 'w \<Rightarrow>
   'e + ('x, 'req, 'codec, 'pp) sources" where
  "gather env b recv val req pathParams w =
     (case Run env (vd b) val w of
        Inl err \<Rightarrow> Inl err
      | Inr expr \<Rightarrow>
          (let bodyCodec = getBodyCodec env recv req
           in case getBodyBytes env recv req (bodyCodec = jsonBody env) of
                Inl err \<Rightarrow> Inl err
              | Inr bodyBytes \<Rightarrow>
                  (case getPostForm env recv req (bodyCodec = formBody env) of
                     Inl err \<Rightarrow> Inl err
                   | Inr postForm \<Rightarrow>
                       Inr \<lparr>s_expr = expr, s_req = req, s_pathParams = pathParams,
                            s_bodyCodec = bodyCodec, s_bodyBytes = bodyBytes,
                            s_postForm = postForm,
                            s_queryValues = getQuery env recv req,
                            s_cookies = getCookies env recv req\<rparr>)))"

text \<open>\<^verbatim>\<open>bind\<close>: the result is \<^verbatim>\<open>(hasVd, err)\<close>, the binding tool and the store.\<close>

definition bind ::
  "('a, 'rv, 'e, 'vd, 'tid, 'x, 'r, 'w, 'req, 'codec, 'pp) env \<Rightarrow>
   ('e, 'vd, 'tid) Binding \<Rightarrow> 'rv \<Rightarrow> 'req \<Rightarrow> 'pp \<Rightarrow> 'w \<Rightarrow>
   (bool \<times> 'e option) \<times> ('e, 'vd, 'tid) Binding \<times> 'w" where
  "bind env b val req pathParams w =
     (case getObjOrPrepare env b val of
        (Inl err, b') \<Rightarrow> ((False, Some err), b', w)
      | (Inr recv, b') \<Rightarrow>
          (case gather env b' recv val req pathParams w of
             Inl err \<Rightarrow> ((False, Some err), b', w)
           | Inr src \<Rightarrow>
               (case bindParams env src (params recv) w of
                  (err, w') \<Rightarrow> ((hasVd recv, err), b', w'))))"

subsection \<open>The operations: \<^verbatim>\<open>BindAndValidate\<close> and \<^verbatim>\<open>Bind\<close>\<close>

definition BindAndValidate ::
  "('a, 'rv, 'e, 'vd, 'tid, 'x, 'r, 'w, 'req, 'codec, 'pp) env \<Rightarrow>
   ('e, 'vd, 'tid) Binding \<Rightarrow> 'a \<Rightarrow> 'req \<Rightarrow> 'pp \<Rightarrow> 'w \<Rightarrow>
   'e option \<times> ('e, 'vd, 'tid) Binding \<times> 'w" where
  "BindAndValidate env b structPointer req pathParams w =
     (case structValueOf env b structPointer of
        Inl err \<Rightarrow> (Some err, b, w)
      | Inr v \<Rightarrow>
          (case bind env b v req pathParams w of
             ((hasVd0, Some err), b', w') \<Rightarrow> (Some err, b', w')
           | ((hasVd0, None), b', w') \<Rightarrow>
               if hasVd0 then (vd_Validate env (vd b') v w', b', w') else (None, b', w')))"

definition Bind ::
  "('a, 'rv, 'e, 'vd, 'tid, 'x, 'r, 'w, 'req, 'codec, 'pp) env \<Rightarrow>
   ('e, 'vd, 'tid) Binding \<Rightarrow> 'a \<Rightarrow> 'req \<Rightarrow> 'pp \<Rightarrow> 'w \<Rightarrow>
   'e option \<times> ('e, 'vd, 'tid) Binding \<times> 'w" where
  "Bind env b structPointer req pathParams w =
     (case structValueOf env b structPointer of
        Inl err \<Rightarrow> (Some err, b, w)
      | Inr v \<Rightarrow>
          (case bind env b v req pathParams w of
             ((hasVd0, err), b', w') \<Rightarrow> (err, b', w')))"

subsection \<open>Vocabulary for the properties\<close>

text \<open>A sub-expression name that reaches one of the six source cases of the
  \<^verbatim>\<open>switch es.Name()\<close>: the cases of the match and error-message markers come first.\<close>

definition reachesSource ::
  "('a, 'rv, 'e, 'vd, 'tid, 'x, 'r, 'w, 'req, 'codec, 'pp) env \<Rightarrow> string \<Rightarrow> bool" where
  "reachesSource env n =
     (n \<noteq> MatchExprName env \<and> n \<noteq> ErrMsgExprName env
      \<and> (n = ''raw_body'' \<or> n = ''body'' \<or> n = ''query'' \<or> n = ''path'' \<or> n = ''header''
           \<or> n = ''cookie''))"

definition hasSourceDirective ::
  "('a, 'rv, 'e, 'vd, 'tid, 'x, 'r, 'w, 'req, 'codec, 'pp) env \<Rightarrow> 'r FieldHandler \<Rightarrow> bool" where
  "hasSourceDirective env fh =
     list_ex (\<lambda>(es, eval). reachesSource env (es_Name env es)) (EvalFuncs fh)"

text \<open>A field carries a sub-expression of a given name; it carries a given source
  directive when the name is one of the six source names and reaches its case. The fields
  the walk handles are those the traversal policy does not skip.\<close>

definition carries ::
  "('a, 'rv, 'e, 'vd, 'tid, 'x, 'r, 'w, 'req, 'codec, 'pp) env \<Rightarrow> string \<Rightarrow>
   'r FieldHandler \<Rightarrow> bool" where
  "carries env n fh = list_ex (\<lambda>(es, eval). es_Name env es = n) (EvalFuncs fh)"

definition carriesSource ::
  "('a, 'rv, 'e, 'vd, 'tid, 'x, 'r, 'w, 'req, 'codec, 'pp) env \<Rightarrow> string \<Rightarrow>
   'r FieldHandler \<Rightarrow> bool" where
  "carriesSource env n fh =
     list_ex (\<lambda>(es, eval). es_Name env es = n \<and> reachesSource env n) (EvalFuncs fh)"

definition visited ::
  "('a, 'rv, 'e, 'vd, 'tid, 'x, 'r, 'w, 'req, 'codec, 'pp) env \<Rightarrow>
   ('e, 'vd, 'tid) Binding \<Rightarrow> 'r FieldHandler list \<Rightarrow> 'r FieldHandler list" where
  "visited env b fhs = filter (\<lambda>fh. \<not> skipField env (level b) fh) fhs"

text \<open>The seven flags of a plan, in the order \<^verbatim>\<open>hasAuto\<close>, \<^verbatim>\<open>hasQuery\<close>, \<^verbatim>\<open>hasCookie\<close>,
  \<^verbatim>\<open>hasPath\<close>, \<^verbatim>\<open>hasBody\<close>, \<^verbatim>\<open>hasRawBody\<close>, \<^verbatim>\<open>hasVd\<close>.\<close>

definition flagsOf ::
  "'e receiver \<Rightarrow> bool \<times> bool \<times> bool \<times> bool \<times> bool \<times> bool \<times> bool" where
  "flagsOf recv =
     (hasAuto recv, hasQuery recv, hasCookie recv, hasPath recv, hasBody recv,
      hasRawBody recv, hasVd recv)"

text \<open>A binder that returns \<^verbatim>\<open>(bool, error)\<close> is called as \<^verbatim>\<open>_, err = ...\<close> in the
  \<^verbatim>\<open>switch\<close> of \<^verbatim>\<open>bind\<close>: the first component is dropped.\<close>

definition dropFound :: "(bool \<times> 'e option) \<times> 'w \<Rightarrow> 'e option \<times> 'w" where
  "dropFound r = (snd (fst r), snd r)"

text \<open>The per-request values as lines 252 to 270 of \<^verbatim>\<open>bind\<close> compute them from the request
  when none of the three fallible steps fails: \<open>expr\<close>, \<open>bodyBytes\<close> and \<open>postForm\<close> are the
  results of those steps.\<close>

definition requestValues ::
  "('a, 'rv, 'e, 'vd, 'tid, 'x, 'r, 'w, 'req, 'codec, 'pp) env \<Rightarrow> 'e receiver \<Rightarrow>
   'req \<Rightarrow> 'pp \<Rightarrow> 'x \<Rightarrow> Bytes \<Rightarrow> Values \<Rightarrow> ('x, 'req, 'codec, 'pp) sources" where
  "requestValues env recv req pathParams expr bodyBytes postForm =
     \<lparr>s_expr = expr, s_req = req, s_pathParams = pathParams,
      s_bodyCodec = getBodyCodec env recv req, s_bodyBytes = bodyBytes,
      s_postForm = postForm, s_queryValues = getQuery env recv req,
      s_cookies = getCookies env recv req\<rparr>"

subsection \<open>The binders of a descriptor, from the spec\<close>

text \<open>
  Modelled from the spec: the methods \<^verbatim>\<open>bindQuery\<close>, \<^verbatim>\<open>bindPath\<close>, \<^verbatim>\<open>bindHeader\<close>,
  \<^verbatim>\<open>bindCookie\<close>, \<^verbatim>\<open>bindBody\<close> and \<^verbatim>\<open>bindRawBody\<close> of \<^verbatim>\<open>paramInfo\<close> are not in
  \<^verbatim>\<open>bind.go\<close>; only their calls are. The spec (section 4.2) describes them. For query,
  path, header and cookie: look up the external parameter name in the corresponding
  source; if it is absent and the field is required, fail with a binding error naming the
  field and the source; if it is absent and the field is not required, leave the field
  untouched and continue. For body: extract the named value from the decoded body using
  the codec, with the same policy. For raw body: assign the entire raw body payload to the
  field, with no name lookup. An extraction also fails when a conversion fails.

  The destination record is a map from field selectors to field values, and a descriptor
  writes the field \<^verbatim>\<open>fieldSelector\<close> names. What the spec leaves open is a parameter: the
  lookup of a path parameter and of a named value in the decoded body, the conversion of
  the values found into a field value, the field value of a raw body, and the message
  that names the source.
\<close>

type_synonym 'val dest = "string \<Rightarrow> 'val option"

record ('e, 'val, 'codec, 'pp) extractors =
  x_path :: "'pp \<Rightarrow> string \<Rightarrow> string list option"
  x_body :: "'codec \<Rightarrow> Values \<Rightarrow> Bytes \<Rightarrow> string \<Rightarrow> string list option"
  x_convert :: "'e paramInfo \<Rightarrow> string list \<Rightarrow> 'e + 'val"
  x_raw :: "Bytes \<Rightarrow> 'val"
  x_missing :: "in_t \<Rightarrow> string"

text \<open>The policy shared by the named sources: \<open>looked\<close> is the result of the lookup, the
  first component of the result says whether a value was found.\<close>

definition specBind ::
  "('e, 'val, 'codec, 'pp) extractors \<Rightarrow> 'e paramInfo \<Rightarrow> in_t \<Rightarrow> string list option \<Rightarrow>
   'val dest \<Rightarrow> (bool \<times> 'e option) \<times> 'val dest" where
  "specBind xt p source looked w =
     (case looked of
        None \<Rightarrow>
          ((False,
            if required p
            then Some (p_bindErrFactory p (fieldSelector p) (x_missing xt source))
            else None), w)
      | Some found \<Rightarrow>
          (case x_convert xt p found of
             Inl err \<Rightarrow> ((True, Some err), w)
           | Inr val \<Rightarrow> ((True, None), w(fieldSelector p \<mapsto> val))))"

definition specCookie :: "Cookies \<Rightarrow> string \<Rightarrow> string list option" where
  "specCookie cookies n = map_option (\<lambda>c. [c]) (map_of cookies n)"

text \<open>Collaborators whose binders are those of the spec.\<close>

definition withSpecBinders ::
  "('e, 'val, 'codec, 'pp) extractors \<Rightarrow>
   ('a, 'rv, 'e, 'vd, 'tid, 'x, 'r, 'val dest, 'req, 'codec, 'pp) env \<Rightarrow>
   ('a, 'rv, 'e, 'vd, 'tid, 'x, 'r, 'val dest, 'req, 'codec, 'pp) env" where
  "withSpecBinders xt env =
     env\<lparr>bindQuery := (\<lambda>p expr vals w. specBind xt p query (vals (name p)) w),
         bindPath := (\<lambda>p expr pathParams w. specBind xt p path (x_path xt pathParams (name p)) w),
         bindHeader := (\<lambda>p expr hd w. specBind xt p header (hd (name p)) w),
         bindCookie :=
           (\<lambda>p expr cookies w. dropFound (specBind xt p cookie (specCookie cookies (name p)) w)),
         bindBody :=
           (\<lambda>p expr codec postForm bodyBytes w.
              specBind xt p body (x_body xt codec postForm bodyBytes (name p)) w),
         bindRawBody := (\<lambda>p expr bodyBytes w. (None, w(fieldSelector p \<mapsto> x_raw xt bodyBytes)))\<rparr>"

subsection \<open>A concrete instance of the collaborators\<close>

text \<open>
  A small implementation of the collaborators, on which the functions above are run.
  Errors record the factory that built them; a reflected value is a struct (with the
  identity of its type and whether it is addressable), a pointer, the zero value or
  something else; the store lists the writes into the destination record, the latest
  first; a request carries its query, its form body and its headers; a selector
  \<^verbatim>\<open>Field@name\<close> has the name after the first \<^verbatim>\<open>@\<close>.
\<close>

datatype ex_error =
  BindError string string | DefaultError string string string | ValidateError string string

datatype ex_value = VInvalid | VStruct nat bool | VPtr ex_value | VOther

datatype ex_result = RString string | RBool bool

record ex_request =
  rq_query :: "(string \<times> string list) list"
  rq_form :: "(string \<times> string list) list"
  rq_header :: "(string \<times> string list) list"

type_synonym ex_store = "(string \<times> string) list"

fun ex_Kind :: "ex_value \<Rightarrow> Kind" where
  "ex_Kind VInvalid = Invalid"
| "ex_Kind (VStruct t a) = Struct"
| "ex_Kind (VPtr v) = Ptr"
| "ex_Kind VOther = OtherKind"

fun ex_derefValue :: "ex_value \<Rightarrow> ex_value" where
  "ex_derefValue (VPtr v) = ex_derefValue v"
| "ex_derefValue v = v"

fun ex_CanAddr :: "ex_value \<Rightarrow> bool" where
  "ex_CanAddr (VStruct t a) = a"
| "ex_CanAddr v = False"

fun ex_typeOf :: "ex_value \<Rightarrow> nat" where
  "ex_typeOf (VStruct t a) = t"
| "ex_typeOf v = 0"

definition ex_Name :: "ExprSelector \<Rightarrow> string" where
  "ex_Name es = tl (dropWhile (\<lambda>c. c \<noteq> CHR ''@'') es)"

fun ex_FakeBool :: "ex_result \<Rightarrow> bool" where
  "ex_FakeBool (RBool c) = c"
| "ex_FakeBool (RString s) = (s \<noteq> [])"

fun ex_getParamName :: "ex_result \<Rightarrow> string \<Rightarrow> string \<times> string" where
  "ex_getParamName (RString s) fname = (if s = [] then fname else s, [])"
| "ex_getParamName (RBool c) fname = (fname, ''parameter name must be a string'')"

text \<open>The record types of the instance, by the identity of the type:
  1 has \<^verbatim>\<open>Page\<close> (query, required) and \<^verbatim>\<open>Token\<close> (header);
  2 has \<^verbatim>\<open>Name\<close> with no directive;
  3 has \<^verbatim>\<open>Info\<close> with no directive and, inside it, \<^verbatim>\<open>Info.Age\<close> with a validation
  rule only;
  4 has \<^verbatim>\<open>Page\<close> (query) only;
  5 has \<^verbatim>\<open>Id\<close> (path) and an unexported field;
  6 has \<^verbatim>\<open>Info\<close> and, inside it, \<^verbatim>\<open>Info.Id\<close> (query) and \<^verbatim>\<open>Info.Note\<close> (untagged);
  7 has \<^verbatim>\<open>Id\<close> (path), \<^verbatim>\<open>Page\<close> (query, required) and \<^verbatim>\<open>Token\<close> (header);
  8 has \<^verbatim>\<open>Token\<close> (header) only;
  10 has \<^verbatim>\<open>Page\<close> (query) with a validation rule and its message.\<close>

definition ex_fieldsOf :: "nat \<Rightarrow> ex_result FieldHandler list" where
  "ex_fieldsOf t =
     (if t = 1 then
        [\<lparr>FieldSelector_Split = ([], ''Page''), StringSelector = ''Page'', Value_CanSet = True,
          EvalFuncs = [(''Page@query'', RString ''page''), (''Page@required'', RBool True)]\<rparr>,
         \<lparr>FieldSelector_Split = ([], ''Token''), StringSelector = ''Token'',
          Value_CanSet = True, EvalFuncs = [(''Token@header'', RString ''X-Token'')]\<rparr>]
      else if t = 2 then
        [\<lparr>FieldSelector_Split = ([], ''Name''), StringSelector = ''Name'', Value_CanSet = True,
          EvalFuncs = []\<rparr>]
      else if t = 3 then
        [\<lparr>FieldSelector_Split = ([], ''Info''), StringSelector = ''Info'', Value_CanSet = True,
          EvalFuncs = []\<rparr>,
         \<lparr>FieldSelector_Split = ([''Info''], ''Age''), StringSelector = ''Info.Age'',
          Value_CanSet = True, EvalFuncs = [(''Info.Age@@'', RBool True)]\<rparr>]
      else if t = 4 then
        [\<lparr>FieldSelector_Split = ([], ''Page''), StringSelector = ''Page'', Value_CanSet = True,
          EvalFuncs = [(''Page@query'', RString ''page'')]\<rparr>]
      else if t = 5 then
        [\<lparr>FieldSelector_Split = ([], ''Id''), StringSelector = ''Id'', Value_CanSet = True,
          EvalFuncs = [(''Id@path'', RString ''id'')]\<rparr>,
         \<lparr>FieldSelector_Split = ([], ''secret''), StringSelector = ''secret'',
          Value_CanSet = False, EvalFuncs = []\<rparr>]
      else if t = 6 then
        [\<lparr>FieldSelector_Split = ([], ''Info''), StringSelector = ''Info'', Value_CanSet = True,
          EvalFuncs = []\<rparr>,
         \<lparr>FieldSelector_Split = ([''Info''], ''Id''), StringSelector = ''Info.Id'',
          Value_CanSet = True, EvalFuncs = [(''Info.Id@query'', RString ''id'')]\<rparr>,
         \<lparr>FieldSelector_Split = ([''Info''], ''Note''), StringSelector = ''Info.Note'',
          Value_CanSet = True, EvalFuncs = []\<rparr>]
      else if t = 7 then
        [\<lparr>FieldSelector_Split = ([], ''Id''), StringSelector = ''Id'', Value_CanSet = True,
          EvalFuncs = [(''Id@path'', RString ''id'')]\<rparr>,
         \<lparr>FieldSelector_Split = ([], ''Page''), StringSelector = ''Page'', Value_CanSet = True,
          EvalFuncs = [(''Page@required'', RBool True), (''Page@query'', RString ''page'')]\<rparr>,
         \<lparr>FieldSelector_Split = ([], ''Token''), StringSelector = ''Token'',
          Value_CanSet = True, EvalFuncs = [(''Token@header'', RString ''X-Token'')]\<rparr>]
      else if t = 8 then
        [\<lparr>FieldSelector_Split = ([], ''Token''), StringSelector = ''Token'',
          Value_CanSet = True, EvalFuncs = [(''Token@header'', RString ''X-Token'')]\<rparr>]
      else if t = 10 then
        [\<lparr>FieldSelector_Split = ([], ''Page''), StringSelector = ''Page'', Value_CanSet = True,
          EvalFuncs = [(''Page@query'', RString ''page''), (''Page@@'', RBool True),
                       (''Page@msg'', RString ''bad page'')]\<rparr>]
      else [])"

text \<open>The binders of the instance look the parameter name up, write the first value
  found into the field of the descriptor, and fail when a required parameter is
  missing.\<close>

definition ex_bindValues ::
  "ex_error paramInfo \<Rightarrow> Values \<Rightarrow> ex_store \<Rightarrow> (bool \<times> ex_error option) \<times> ex_store" where
  "ex_bindValues p vals w =
     (case vals (name p) of
        Some (v # vs) \<Rightarrow> ((True, None), (fieldSelector p, v) # w)
      | Some [] \<Rightarrow>
          ((False, if required p
                   then Some (p_bindErrFactory p (fieldSelector p) ''missing required parameter'')
                   else None), w)
      | None \<Rightarrow>
          ((False, if required p
                   then Some (p_bindErrFactory p (fieldSelector p) ''missing required parameter'')
                   else None), w))"

definition ex_Validate ::
  "ex_error errFactory \<Rightarrow> ex_value \<Rightarrow> ex_store \<Rightarrow> ex_error option" where
  "ex_Validate factory v w =
     (if ex_typeOf v = 3 \<and> map_of w ''Info.Age'' = None
      then Some (factory ''Info.Age'' ''invalid'')
      else if map_of w ''Page'' = Some ''0'' then Some (factory ''Page'' ''invalid'')
      else None)"

definition ex_env ::
  "(ex_value, ex_value, ex_error, ex_error errFactory, nat, nat, ex_result, ex_store,
    ex_request, nat, Values) env" where
  "ex_env =
     \<lparr>asValue = (\<lambda>a. None),
      ValueOf = (\<lambda>a. a),
      Kind = ex_Kind,
      CanAddr = ex_CanAddr,
      IsValid = (\<lambda>v. v \<noteq> VInvalid),
      derefValue = ex_derefValue,
      RuntimeTypeID = ex_typeOf,
      RunZero = (\<lambda>f v. Inr (ex_typeOf v)),
      Run = (\<lambda>f v w. Inr (ex_typeOf v)),
      fieldsOf = ex_fieldsOf,
      es_Name = ex_Name,
      es_String = (\<lambda>es. es),
      FakeBool = ex_FakeBool,
      MatchExprName = ''@'',
      ErrMsgExprName = ''msg'',
      getParamName = ex_getParamName,
      initParams = (\<lambda>recv. recv),
      newDefaultErrorFactory = DefaultError,
      vd_SetErrorFactory = (\<lambda>f old. f),
      vd_Validate = ex_Validate,
      getBodyCodec = (\<lambda>recv req. if rq_form req = [] then 0 else 1),
      jsonBody = 0,
      formBody = 1,
      getBodyBytes = (\<lambda>recv req isJson. Inr []),
      getPostForm = (\<lambda>recv req isForm. Inr (if isForm then map_of (rq_form req) else Map.empty)),
      getQuery = (\<lambda>recv req. map_of (rq_query req)),
      getCookies = (\<lambda>recv req. []),
      req_Header = (\<lambda>req. map_of (rq_header req)),
      bindQuery = (\<lambda>p x vals w. ex_bindValues p vals w),
      bindPath = (\<lambda>p x vals w. ex_bindValues p vals w),
      bindHeader = (\<lambda>p x vals w. ex_bindValues p vals w),
      bindCookie = (\<lambda>p x cs w. (None, w)),
      bindBody = (\<lambda>p x codec form bytes w.
                    if codec = 1 then ex_bindValues p form w else ((False, None), w)),
      bindRawBody = (\<lambda>p x bytes w. (None, (fieldSelector p, ''raw'') # w))\<rparr>"

definition ex_binding :: "(ex_error, ex_error errFactory, nat) Binding" where
  "ex_binding =
     \<lparr>level = FirstAndTagged, vd = ValidateError, recvs = Map.empty,
      bindErrFactory = BindError\<rparr>"

text \<open>The plans of the types 7, 2 and 10 of the instance, a request that lacks the
  required \<^verbatim>\<open>page\<close> (with the values \<^verbatim>\<open>bind\<close> computes from it), a request that names
  \<^verbatim>\<open>Name\<close> in its form body and in its query, and one that names it in its query only.\<close>

definition ex_plan7 :: "ex_error receiver" where
  "ex_plan7 =
     \<lparr>params =
        [\<lparr>fieldSelector = ''Id'', p_bindErrFactory = BindError, p_in = path, name = ''id'',
          required = False\<rparr>,
         \<lparr>fieldSelector = ''Page'', p_bindErrFactory = BindError, p_in = query,
          name = ''page'', required = True\<rparr>,
         \<lparr>fieldSelector = ''Token'', p_bindErrFactory = BindError, p_in = header,
          name = ''X-Token'', required = False\<rparr>],
      hasAuto = False, hasQuery = True, hasCookie = False, hasPath = True, hasBody = False,
      hasRawBody = False, hasVd = False\<rparr>"

definition ex_plan2 :: "ex_error receiver" where
  "ex_plan2 =
     \<lparr>params =
        [\<lparr>fieldSelector = ''Name'', p_bindErrFactory = BindError, p_in = auto,
          name = ''Name'', required = False\<rparr>],
      hasAuto = True, hasQuery = False, hasCookie = False, hasPath = False, hasBody = True,
      hasRawBody = False, hasVd = False\<rparr>"

definition ex_plan10 :: "ex_error receiver" where
  "ex_plan10 =
     \<lparr>params =
        [\<lparr>fieldSelector = ''Page'', p_bindErrFactory = BindError, p_in = query,
          name = ''page'', required = False\<rparr>],
      hasAuto = False, hasQuery = True, hasCookie = False, hasPath = False, hasBody = False,
      hasRawBody = False, hasVd = True\<rparr>"

definition ex_req_page0 :: ex_request where
  "ex_req_page0 = \<lparr>rq_query = [(''page'', [''0''])], rq_form = [], rq_header = []\<rparr>"

definition ex_req_no_page :: ex_request where
  "ex_req_no_page = \<lparr>rq_query = [], rq_form = [], rq_header = [(''X-Token'', [''abc''])]\<rparr>"

definition ex_src_no_page :: "(nat, ex_request, nat, Values) sources" where
  "ex_src_no_page =
     \<lparr>s_expr = 7, s_req = ex_req_no_page, s_pathParams = map_of [(''id'', [''7''])],
      s_bodyCodec = 0, s_bodyBytes = [], s_postForm = Map.empty,
      s_queryValues = map_of [], s_cookies = []\<rparr>"

definition ex_req_both :: ex_request where
  "ex_req_both =
     \<lparr>rq_query = [(''Name'', [''q''])], rq_form = [(''Name'', [''b''])], rq_header = []\<rparr>"

definition ex_req_query :: ex_request where
  "ex_req_query =
     \<lparr>rq_query = [(''Name'', [''q''])], rq_form = [(''Other'', [''b''])], rq_header = []\<rparr>"

text \<open>An instance with the binders of the spec: the destination record is a map from
  selectors to strings, a path parameter is looked up in a map, the form body is the
  decoded body, and the first of the values found is the value of the field.\<close>

definition ex_xt :: "(ex_error, string, nat, Values) extractors" where
  "ex_xt =
     \<lparr>x_path = (\<lambda>pathParams n. pathParams n),
      x_body = (\<lambda>codec postForm bodyBytes n. if codec = 1 then postForm n else None),
      x_convert =
        (\<lambda>p found. case found of
                      [] \<Rightarrow> Inl (p_bindErrFactory p (fieldSelector p) ''no value'')
                    | val # vals \<Rightarrow> Inr val),
      x_raw = (\<lambda>bodyBytes. ''raw''),
      x_missing = (\<lambda>source. ''missing required parameter'')\<rparr>"

definition ex_env_dest ::
  "(ex_value, ex_value, ex_error, ex_error errFactory, nat, nat, ex_result, string dest,
    ex_request, nat, Values) env" where
  "ex_env_dest =
     \<lparr>asValue = (\<lambda>a. None),
      ValueOf = (\<lambda>a. a),
      Kind = ex_Kind,
      CanAddr = ex_CanAddr,
      IsValid = (\<lambda>v. v \<noteq> VInvalid),
      derefValue = ex_derefValue,
      RuntimeTypeID = ex_typeOf,
      RunZero = (\<lambda>f v. Inr (ex_typeOf v)),
      Run = (\<lambda>f v w. Inr (ex_typeOf v)),
      fieldsOf = ex_fieldsOf,
      es_Name = ex_Name,
      es_String = (\<lambda>es. es),
      FakeBool = ex_FakeBool,
      MatchExprName = ''@'',
      ErrMsgExprName = ''msg'',
      getParamName = ex_getParamName,
      initParams = (\<lambda>recv. recv),
      newDefaultErrorFactory = DefaultError,
      vd_SetErrorFactory = (\<lambda>f old. f),
      vd_Validate = (\<lambda>f v w. None),
      getBodyCodec = (\<lambda>recv req. if rq_form req = [] then 0 else 1),
      jsonBody = 0,
      formBody = 1,
      getBodyBytes = (\<lambda>recv req isJson. Inr []),
      getPostForm = (\<lambda>recv req isForm. Inr (if isForm then map_of (rq_form req) else Map.empty)),
      getQuery = (\<lambda>recv req. map_of (rq_query req)),
      getCookies = (\<lambda>recv req. []),
      req_Header = (\<lambda>req. map_of (rq_header req)),
      bindQuery = (\<lambda>p x vals w. ((False, None), w)),
      bindPath = (\<lambda>p x vals w. ((False, None), w)),
      bindHeader = (\<lambda>p x vals w. ((False, None), w)),
      bindCookie = (\<lambda>p x cs w. (None, w)),
      bindBody = (\<lambda>p x codec form bytes w. ((False, None), w)),
      bindRawBody = (\<lambda>p x bytes w. (None, w))\<rparr>"

definition ex_spec_env ::
  "(ex_value, ex_value, ex_error, ex_error errFactory, nat, nat, ex_result, string dest,
    ex_request, nat, Values) env" where
  "ex_spec_env = withSpecBinders ex_xt ex_env_dest"

section \<open>Properties\<close>

subsection \<open>Configuration\<close>

text \<open>
  Claim C9. For every traversal-policy value passed to \<^verbatim>\<open>SetLevel\<close>, a recognized level
  (\<^verbatim>\<open>OnlyFirst\<close>, \<^verbatim>\<open>FirstAndTagged\<close>, \<^verbatim>\<open>Any\<close>) is stored as given, and any other value
  falls back to the middle level \<^verbatim>\<open>FirstAndTagged\<close>; nothing else of the binding tool
  changes.
\<close>

theorem SetLevel_stores_or_falls_back:
  "level (SetLevel lv b) =
     (if lv = OnlyFirst \<or> lv = FirstAndTagged \<or> lv = Any then lv else FirstAndTagged)
   \<and> vd (SetLevel lv b) = vd b
   \<and> recvs (SetLevel lv b) = recvs b
   \<and> bindErrFactory (SetLevel lv b) = bindErrFactory b"
  by (simp add: SetLevel_def)

theorem SetLevel_stores_or_falls_back_witness:
  "level (SetLevel 0 ex_binding) = OnlyFirst
   \<and> level (SetLevel 1 ex_binding) = FirstAndTagged
   \<and> level (SetLevel 2 (SetLevel 0 ex_binding)) = Any
   \<and> level (SetLevel 3 (SetLevel 0 ex_binding)) = FirstAndTagged
   \<and> level (SetLevel 255 (SetLevel 2 ex_binding)) = FirstAndTagged"
  using SetLevel_stores_or_falls_back [of 0 ex_binding]
    SetLevel_stores_or_falls_back [of 1 ex_binding]
    SetLevel_stores_or_falls_back [of 2 "SetLevel 0 ex_binding"]
    SetLevel_stores_or_falls_back [of 3 "SetLevel 0 ex_binding"]
    SetLevel_stores_or_falls_back [of 255 "SetLevel 2 ex_binding"]
  by (simp add: OnlyFirst_def FirstAndTagged_def Any_def)

text \<open>
  Claim C8. The bind-error factory and the validation-error factory are set
  independently by \<^verbatim>\<open>SetErrorFactory\<close>: the bind-error factory that results is the first
  argument, or the default \<^verbatim>\<open>defaultBindErrFactory\<close> when that argument is \<^verbatim>\<open>nil\<close>; the
  factory handed to the validator is the second argument, or the default
  \<^verbatim>\<open>defaultValidatingErrFactory\<close> when that argument is \<^verbatim>\<open>nil\<close>. Neither depends on the
  other argument, and the level and the plan cache are left alone.
\<close>

theorem SetErrorFactory_independent:
  "bindErrFactory (SetErrorFactory env bf vf b) =
     (case bf of None \<Rightarrow> defaultBindErrFactory env | Some f \<Rightarrow> f)
   \<and> vd (SetErrorFactory env bf vf b) =
       vd_SetErrorFactory env
         (case vf of None \<Rightarrow> defaultValidatingErrFactory env | Some g \<Rightarrow> g) (vd b)
   \<and> bindErrFactory (SetErrorFactory env bf vf b) = bindErrFactory (SetErrorFactory env bf vf' b)
   \<and> vd (SetErrorFactory env bf vf b) = vd (SetErrorFactory env bf' vf b)
   \<and> level (SetErrorFactory env bf vf b) = level b
   \<and> recvs (SetErrorFactory env bf vf b) = recvs b"
  by (simp add: SetErrorFactory_def Let_def)

theorem SetErrorFactory_independent_witness:
  "bindErrFactory (SetErrorFactory ex_env None (Some ValidateError) ex_binding) =
     DefaultError ''binding failed''
   \<and> vd (SetErrorFactory ex_env None (Some ValidateError) ex_binding) = ValidateError
   \<and> bindErrFactory (SetErrorFactory ex_env (Some BindError) None ex_binding) = BindError
   \<and> vd (SetErrorFactory ex_env (Some BindError) None ex_binding) =
       DefaultError ''invalid parameter''"
  using SetErrorFactory_independent [of ex_env None "Some ValidateError" ex_binding]
    SetErrorFactory_independent [of ex_env "Some BindError" None ex_binding]
  by (simp add: ex_env_def defaultBindErrFactory_def defaultValidatingErrFactory_def)

subsection \<open>The destination argument\<close>

text \<open>
  Claim C5. When the destination argument is not a pointer, or what it leads to (by
  \<^verbatim>\<open>derefValue\<close>) is not a struct, is not addressable or is not valid, \<^verbatim>\<open>Bind\<close> and
  \<^verbatim>\<open>BindAndValidate\<close> return the error that the bind-error factory builds from the empty
  field selector and the fixed message, and neither the binding tool (its plan cache)
  nor the destination store changes: no binding is attempted.
\<close>

theorem not_a_struct_pointer_fails:
  assumes "v = (case asValue env sp of Some v0 \<Rightarrow> v0 | None \<Rightarrow> ValueOf env sp)"
    and "Kind env v \<noteq> Ptr \<or> Kind env (derefValue env v) \<noteq> Struct
         \<or> \<not> CanAddr env (derefValue env v) \<or> \<not> IsValid env (derefValue env v)"
  shows "Bind env b sp req pp w =
           (Some (bindErrFactory b [] ''structPointer must be a non-nil struct pointer''), b, w)
         \<and> BindAndValidate env b sp req pp w =
           (Some (bindErrFactory b [] ''structPointer must be a non-nil struct pointer''), b, w)"
  using assms by (auto simp: Bind_def BindAndValidate_def structValueOf_def Let_def)

theorem not_a_struct_pointer_fails_witness:
  "Bind ex_env ex_binding VOther \<lparr>rq_query = [], rq_form = [], rq_header = []\<rparr> Map.empty [] =
     (Some (BindError [] ''structPointer must be a non-nil struct pointer''), ex_binding, [])
   \<and> BindAndValidate ex_env ex_binding (VPtr VInvalid)
       \<lparr>rq_query = [], rq_form = [], rq_header = []\<rparr> Map.empty [] =
     (Some (BindError [] ''structPointer must be a non-nil struct pointer''), ex_binding, [])
   \<and> Bind ex_env ex_binding (VPtr VOther) \<lparr>rq_query = [], rq_form = [], rq_header = []\<rparr>
       Map.empty [] =
     (Some (BindError [] ''structPointer must be a non-nil struct pointer''), ex_binding, [])
   \<and> BindAndValidate ex_env ex_binding (VPtr (VStruct 1 False))
       \<lparr>rq_query = [], rq_form = [], rq_header = []\<rparr> Map.empty [] =
     (Some (BindError [] ''structPointer must be a non-nil struct pointer''), ex_binding, [])"
proof -
  let ?req = "\<lparr>rq_query = [], rq_form = [], rq_header = []\<rparr>"
  have a: "Kind ex_env VOther \<noteq> Ptr" by (simp add: ex_env_def)
  have b: "Kind ex_env (derefValue ex_env (VPtr VInvalid)) \<noteq> Struct" by (simp add: ex_env_def)
  have c: "Kind ex_env (derefValue ex_env (VPtr VOther)) \<noteq> Struct" by (simp add: ex_env_def)
  have d: "\<not> CanAddr ex_env (derefValue ex_env (VPtr (VStruct 1 False)))"
    by (simp add: ex_env_def)
  have v: "\<And>sp. sp = (case asValue ex_env sp of Some v0 \<Rightarrow> v0 | None \<Rightarrow> ValueOf ex_env sp)"
    by (simp add: ex_env_def)
  show ?thesis
    using not_a_struct_pointer_fails [OF v, of VOther ex_binding ?req Map.empty "[]"] a
      not_a_struct_pointer_fails [OF v, of "VPtr VInvalid" ex_binding ?req Map.empty "[]"] b
      not_a_struct_pointer_fails [OF v, of "VPtr VOther" ex_binding ?req Map.empty "[]"] c
      not_a_struct_pointer_fails [OF v, of "VPtr (VStruct 1 False)" ex_binding ?req Map.empty "[]"] d
    by (simp add: ex_binding_def)
qed

subsection \<open>The instance\<close>

text \<open>The plans the instance builds and the values it gathers from a request.\<close>

lemmas ex_build_simps =
  getObjOrPrepare_def prepare_def ex_env_def ex_binding_def ex_fieldsOf_def fieldCallback_def
  skipField_def canHandle_def FirstAndTagged_def OnlyFirst_def Any_def getOrAddParam_def
  ex_Name_def sourceCase_def newReceiver_def evalStep_def walkFields_def

lemma ex_plan7_built:
  "getObjOrPrepare ex_env ex_binding (VStruct 7 True) =
     (Inr ex_plan7, ex_binding\<lparr>recvs := (recvs ex_binding)(7 \<mapsto> ex_plan7)\<rparr>)"
  by (simp add: ex_build_simps ex_plan7_def)

lemma ex_plan2_built:
  "getObjOrPrepare ex_env ex_binding (VStruct 2 True) =
     (Inr ex_plan2, ex_binding\<lparr>recvs := (recvs ex_binding)(2 \<mapsto> ex_plan2)\<rparr>)"
  by (simp add: ex_build_simps ex_plan2_def)

lemma ex_gather_no_page:
  "gather ex_env (ex_binding\<lparr>recvs := (recvs ex_binding)(7 \<mapsto> ex_plan7)\<rparr>) ex_plan7
     (VStruct 7 True) ex_req_no_page (map_of [(''id'', [''7''])]) [] = Inr ex_src_no_page"
  by (simp add: gather_def ex_env_def ex_src_no_page_def ex_req_no_page_def)

subsection \<open>Plan building: the loop over the sub-expressions of a field\<close>

lemma sourceCase_None_iff:
  "(sourceCase n recv = None) =
     (\<not> (n = ''raw_body'' \<or> n = ''body'' \<or> n = ''query'' \<or> n = ''path'' \<or> n = ''header''
      \<or> n = ''cookie''))"
  by (simp add: sourceCase_def)

lemma sourceCase_not_auto: "sourceCase n recv = Some (recv', in1) \<Longrightarrow> in1 \<noteq> auto"
  by (auto simp: sourceCase_def split: if_splits)

lemma sourceCase_params: "sourceCase n recv = Some (recv', in1) \<Longrightarrow> params recv' = params recv"
  by (auto simp: sourceCase_def split: if_splits)

lemma sourceCase_flags:
  "sourceCase n recv = Some (recv', in1) \<Longrightarrow>
   hasVd recv' = hasVd recv \<and> hasAuto recv' = hasAuto recv
   \<and> hasQuery recv' = (hasQuery recv \<or> n = ''query'')
   \<and> hasPath recv' = (hasPath recv \<or> n = ''path'')
   \<and> hasCookie recv' = (hasCookie recv \<or> n = ''cookie'')
   \<and> hasBody recv' = (hasBody recv \<or> n = ''body'')
   \<and> hasRawBody recv' = (hasRawBody recv \<or> n = ''raw_body'')"
  by (auto simp: sourceCase_def split: if_splits)

lemma map_update_same: "(map f xs)[i := f (xs ! i)] = map f xs"
  by (cases "i < length xs") (simp_all add: list_update_same_conv list_update_beyond)

text \<open>One iteration: either it is one of the source cases or it is not.\<close>

lemma evalStep_cases:
  assumes "evalStep env i (es, eval) (recv, in0, n0, e0, m0) = (ok, (recv', in1, n1, e1, m1))"
  obtains (skip) "\<not> reachesSource env (es_Name env es)" "ok" "in1 = in0" "n1 = n0" "e1 = e0"
      "m1 = m0" "map fieldSelector (params recv') = map fieldSelector (params recv)"
      "hasVd recv' = (hasVd recv \<or> es_Name env es = MatchExprName env)"
      "hasAuto recv' = hasAuto recv" "hasQuery recv' = hasQuery recv"
      "hasPath recv' = hasPath recv" "hasCookie recv' = hasCookie recv"
      "hasBody recv' = hasBody recv" "hasRawBody recv' = hasRawBody recv"
    | (src) "reachesSource env (es_Name env es)" "es_Name env es \<noteq> MatchExprName env"
      "sourceCase (es_Name env es) recv = Some (recv', in1)"
      "getParamName env eval n0 = (n1, m1)" "ok = (m1 = [])" "m1 \<noteq> [] \<or> e1 = e0"
proof (cases "reachesSource env (es_Name env es)")
  case False
  then have nosrc: "es_Name env es = MatchExprName env \<or> es_Name env es = ErrMsgExprName env
                    \<or> sourceCase (es_Name env es) recv = None"
    by (auto simp: reachesSource_def sourceCase_None_iff)
  have "ok \<and> in1 = in0 \<and> n1 = n0 \<and> e1 = e0 \<and> m1 = m0
        \<and> map fieldSelector (params recv') = map fieldSelector (params recv)
        \<and> hasVd recv' = (hasVd recv \<or> es_Name env es = MatchExprName env)
        \<and> hasAuto recv' = hasAuto recv \<and> hasQuery recv' = hasQuery recv
        \<and> hasPath recv' = hasPath recv \<and> hasCookie recv' = hasCookie recv
        \<and> hasBody recv' = hasBody recv \<and> hasRawBody recv' = hasRawBody recv"
    using assms nosrc
    by (auto simp: evalStep_def map_update map_update_same split: if_splits)
  with False show ?thesis using skip by blast
next
  case True
  then have n: "es_Name env es \<noteq> MatchExprName env" "es_Name env es \<noteq> ErrMsgExprName env"
    "es_Name env es \<noteq> ''required''"
    by (auto simp: reachesSource_def)
  from True obtain rs i1 where sc: "sourceCase (es_Name env es) recv = Some (rs, i1)"
    using sourceCase_None_iff [of "es_Name env es" recv] by (auto simp: reachesSource_def)
  obtain fn em where g: "getParamName env eval n0 = (fn, em)"
    by (cases "getParamName env eval n0")
  have "recv' = rs \<and> in1 = i1 \<and> n1 = fn \<and> m1 = em \<and> ok = (em = []) \<and> (em \<noteq> [] \<or> e1 = e0)"
    using assms n sc g by (auto simp: evalStep_def split: if_splits)
  with True n sc g show ?thesis using src by blast
qed


lemma evalsLoop_selectors:
  "evalsLoop env i evals (recv, in0, n0, e0, m0) = (ok, (recv', in1, n1, e1, m1)) \<Longrightarrow>
   map fieldSelector (params recv') = map fieldSelector (params recv)"
proof (induction evals arbitrary: recv in0 n0 e0 m0)
  case Nil
  then show ?case by simp
next
  case (Cons a evals)
  obtain es eval where a: "a = (es, eval)" by (cases a)
  obtain ok2 rs i2 n2 e2 m2 where
    st: "evalStep env i (es, eval) (recv, in0, n0, e0, m0) = (ok2, (rs, i2, n2, e2, m2))"
    by (metis prod_cases5)
  have one: "map fieldSelector (params rs) = map fieldSelector (params recv)"
    using st by (cases rule: evalStep_cases) (auto dest: sourceCase_params)
  show ?case
  proof (cases ok2)
    case True
    with Cons.prems st a
    have "evalsLoop env i evals (rs, i2, n2, e2, m2) = (ok, (recv', in1, n1, e1, m1))" by simp
    from Cons.IH [OF this] one show ?thesis by simp
  next
    case False
    with Cons.prems st a have "recv' = rs" by simp
    with one show ?thesis by simp
  qed
qed

lemma evalsLoop_failure:
  "evalsLoop env i evals (recv, in0, n0, e0, m0) = (False, (recv', in1, n1, e1, m1)) \<Longrightarrow>
   m1 \<noteq> []"
proof (induction evals arbitrary: recv in0 n0 e0 m0)
  case Nil
  then show ?case by simp
next
  case (Cons a evals)
  obtain es eval where a: "a = (es, eval)" by (cases a)
  obtain ok2 rs i2 n2 e2 m2 where
    st: "evalStep env i (es, eval) (recv, in0, n0, e0, m0) = (ok2, (rs, i2, n2, e2, m2))"
    by (metis prod_cases5)
  show ?case
  proof (cases ok2)
    case True
    with Cons.prems st a
    have "evalsLoop env i evals (rs, i2, n2, e2, m2) = (False, (recv', in1, n1, e1, m1))" by simp
    from Cons.IH [OF this] show ?thesis .
  next
    case False
    with Cons.prems st a have m: "m1 = m2" by simp
    from st False have "m2 \<noteq> []" by (cases rule: evalStep_cases) auto
    with m show ?thesis by simp
  qed
qed

lemma evalsLoop_success:
  "evalsLoop env i evals (recv, in0, n0, e0, m0) = (True, (recv', in1, n1, e1, m1)) \<Longrightarrow>
   (in1 = auto) =
     (in0 = auto \<and> \<not> list_ex (\<lambda>(es, eval). reachesSource env (es_Name env es)) evals)
   \<and> hasVd recv' =
       (hasVd recv \<or> list_ex (\<lambda>(es, eval). es_Name env es = MatchExprName env) evals)
   \<and> hasAuto recv' = hasAuto recv
   \<and> hasQuery recv' =
       (hasQuery recv \<or> list_ex (\<lambda>(es, eval). es_Name env es = ''query'' \<and> reachesSource env ''query'') evals)
   \<and> hasPath recv' =
       (hasPath recv \<or> list_ex (\<lambda>(es, eval). es_Name env es = ''path'' \<and> reachesSource env ''path'') evals)
   \<and> hasCookie recv' =
       (hasCookie recv \<or> list_ex (\<lambda>(es, eval). es_Name env es = ''cookie'' \<and> reachesSource env ''cookie'') evals)
   \<and> hasBody recv' =
       (hasBody recv \<or> list_ex (\<lambda>(es, eval). es_Name env es = ''body'' \<and> reachesSource env ''body'') evals)
   \<and> hasRawBody recv' =
       (hasRawBody recv \<or> list_ex (\<lambda>(es, eval). es_Name env es = ''raw_body'' \<and> reachesSource env ''raw_body'') evals)
   \<and> (m0 = [] \<longrightarrow> m1 = [])"
proof (induction evals arbitrary: recv in0 n0 e0 m0)
  case Nil
  then show ?case by simp
next
  case (Cons a evals)
  obtain es eval where a: "a = (es, eval)" by (cases a)
  obtain ok2 rs i2 n2 e2 m2 where
    st: "evalStep env i (es, eval) (recv, in0, n0, e0, m0) = (ok2, (rs, i2, n2, e2, m2))"
    by (metis prod_cases5)
  have ok2: "ok2" using Cons.prems st a by (cases ok2) simp_all
  with Cons.prems st a
  have rest: "evalsLoop env i evals (rs, i2, n2, e2, m2) = (True, (recv', in1, n1, e1, m1))"
    by simp
  note ih = Cons.IH [OF rest]
  from st show ?case
  proof (cases rule: evalStep_cases)
    case skip
    have nq: "\<And>n. es_Name env es = n \<and> reachesSource env n \<longleftrightarrow> False"
      using skip(1) by auto
    show ?thesis
      using ih skip by (simp add: a nq)
  next
    case src
    note fl = sourceCase_flags [OF src(3)]
    have i2: "i2 \<noteq> auto" using src(3) by (rule sourceCase_not_auto)
    have m2: "m2 = []" using src(5) ok2 by simp
    have nq: "\<And>n. es_Name env es = n \<and> reachesSource env n \<longleftrightarrow> es_Name env es = n"
      using src(1) by auto
    show ?thesis
      using ih fl i2 m2 src(1,2) by (simp add: a nq)
  qed
qed


lemma indexOf_Some: "indexOf P xs = Some i \<Longrightarrow> i < length xs \<and> P (xs ! i)"
  by (induction xs arbitrary: i) (auto split: if_splits option.splits)

lemma getOrAddParam_index:
  "getOrAddParam recv fh f = (i, recv1) \<Longrightarrow>
   i < length (params recv1) \<and> fieldSelector (params recv1 ! i) = StringSelector fh"
  by (auto simp: getOrAddParam_def nth_append split: option.splits dest: indexOf_Some)

lemma getOrAddParam_flags:
  "getOrAddParam recv fh f = (i, recv1) \<Longrightarrow>
   hasVd recv1 = hasVd recv \<and> hasAuto recv1 = hasAuto recv \<and> hasQuery recv1 = hasQuery recv
   \<and> hasPath recv1 = hasPath recv \<and> hasCookie recv1 = hasCookie recv
   \<and> hasBody recv1 = hasBody recv \<and> hasRawBody recv1 = hasRawBody recv"
  by (auto simp: getOrAddParam_def split: option.splits)

text \<open>The callback on a field that is handled and returns \<^verbatim>\<open>true\<close>.\<close>

lemma fieldCallback_handled:
  assumes ns: "\<not> skipField env (level b) fh"
    and cb: "fieldCallback env b fh (recv, e, m) = (True, (recv', e', m'))"
  obtains i recv1 recv2 in1 fname where
    "Value_CanSet fh"
    "getOrAddParam recv fh (bindErrFactory b) = (i, recv1)"
    "evalsLoop env i (EvalFuncs fh) (recv1, auto, snd (FieldSelector_Split fh), e, m) =
       (True, (recv2, in1, fname, e', m'))"
    "recv' = (if in1 = auto then recv2\<lparr>hasBody := True, hasAuto := True\<rparr> else recv2)
             \<lparr>params := (params recv2) [i := (params recv2 ! i)\<lparr>p_in := in1, name := fname\<rparr>]\<rparr>"
proof -
  have cs: "Value_CanSet fh"
    using cb ns by (auto simp: fieldCallback_def split: if_splits)
  obtain i recv1 where g: "getOrAddParam recv fh (bindErrFactory b) = (i, recv1)"
    by (cases "getOrAddParam recv fh (bindErrFactory b)")
  obtain ok recv2 in1 fname e2 m2 where
    l: "evalsLoop env i (EvalFuncs fh) (recv1, auto, snd (FieldSelector_Split fh), e, m) =
          (ok, (recv2, in1, fname, e2, m2))"
    by (metis prod_cases5)
  have ok: "ok" using cb ns cs g l by (cases ok) (auto simp: fieldCallback_def)
  have r: "recv' = (if in1 = auto then recv2\<lparr>hasBody := True, hasAuto := True\<rparr> else recv2)
             \<lparr>params := (params recv2) [i := (params recv2 ! i)\<lparr>p_in := in1, name := fname\<rparr>]\<rparr>
           \<and> e' = e2 \<and> m' = m2"
    using cb ns cs g l ok by (auto simp: fieldCallback_def Let_def)
  show ?thesis
    using that [OF cs g] l ok r by simp
qed

lemma fieldCallback_descriptor:
  assumes ns: "\<not> skipField env (level b) fh"
    and cb: "fieldCallback env b fh (recv, e, m) = (True, (recv', e', m'))"
    and g: "getOrAddParam recv fh (bindErrFactory b) = (i, recv1)"
  shows "i < length (params recv') \<and> fieldSelector (params recv' ! i) = StringSelector fh
         \<and> (p_in (params recv' ! i) = auto) = (\<not> hasSourceDirective env fh)"
proof -
  from ns cb obtain i' recv1' recv2 in1 fname where
    g': "getOrAddParam recv fh (bindErrFactory b) = (i', recv1')"
    and l: "evalsLoop env i' (EvalFuncs fh) (recv1', auto, snd (FieldSelector_Split fh), e, m) =
       (True, (recv2, in1, fname, e', m'))"
    and r': "recv' = (if in1 = auto then recv2\<lparr>hasBody := True, hasAuto := True\<rparr> else recv2)
             \<lparr>params := (params recv2) [i' := (params recv2 ! i')\<lparr>p_in := in1, name := fname\<rparr>]\<rparr>"
    by (rule fieldCallback_handled)
  from g g' have eq: "i' = i" "recv1' = recv1" by simp_all
  have sel: "map fieldSelector (params recv2) = map fieldSelector (params recv1)"
    using l unfolding eq by (rule evalsLoop_selectors)
  have i1: "i < length (params recv1)" and f1: "fieldSelector (params recv1 ! i) = StringSelector fh"
    using getOrAddParam_index [OF g] by simp_all
  have len: "length (params recv2) = length (params recv1)"
    using sel by (metis length_map)
  have i2: "i < length (params recv2)" using i1 len by simp
  have f2: "fieldSelector (params recv2 ! i) = StringSelector fh"
    using sel i1 i2 f1 by (metis nth_map)
  have "in1 = auto \<longleftrightarrow> \<not> hasSourceDirective env fh"
    using evalsLoop_success [OF l] by (simp add: hasSourceDirective_def)
  then show ?thesis
    using i2 f2 by (simp add: r' eq)
qed

lemma fieldCallback_flags:
  assumes ns: "\<not> skipField env (level b) fh"
    and cb: "fieldCallback env b fh (recv, e, m) = (True, (recv', e', m'))"
  shows "hasVd recv' = (hasVd recv \<or> carries env (MatchExprName env) fh)
   \<and> hasAuto recv' = (hasAuto recv \<or> \<not> hasSourceDirective env fh)
   \<and> hasQuery recv' = (hasQuery recv \<or> carriesSource env ''query'' fh)
   \<and> hasPath recv' = (hasPath recv \<or> carriesSource env ''path'' fh)
   \<and> hasCookie recv' = (hasCookie recv \<or> carriesSource env ''cookie'' fh)
   \<and> hasBody recv' = (hasBody recv \<or> carriesSource env ''body'' fh \<or> \<not> hasSourceDirective env fh)
   \<and> hasRawBody recv' = (hasRawBody recv \<or> carriesSource env ''raw_body'' fh)
   \<and> (m = [] \<longrightarrow> m' = [])"
proof -
  from ns cb obtain i recv1 recv2 in1 fname where
    g: "getOrAddParam recv fh (bindErrFactory b) = (i, recv1)"
    and l: "evalsLoop env i (EvalFuncs fh) (recv1, auto, snd (FieldSelector_Split fh), e, m) =
       (True, (recv2, in1, fname, e', m'))"
    and r': "recv' = (if in1 = auto then recv2\<lparr>hasBody := True, hasAuto := True\<rparr> else recv2)
             \<lparr>params := (params recv2) [i := (params recv2 ! i)\<lparr>p_in := in1, name := fname\<rparr>]\<rparr>"
    by (rule fieldCallback_handled)
  note f1 = getOrAddParam_flags [OF g]
  note f2 = evalsLoop_success [OF l]
  show ?thesis
    using f1 f2 by (simp add: r' carries_def carriesSource_def hasSourceDirective_def)
qed

lemma fieldCallback_failure:
  assumes "fieldCallback env b fh (recv, e, m) = (False, (recv', e', m'))"
  shows "m' \<noteq> []"
proof (cases "skipField env (level b) fh \<or> \<not> Value_CanSet fh")
  case True
  with assms show ?thesis by (auto simp: fieldCallback_def split: if_splits)
next
  case False
  obtain i recv1 where g: "getOrAddParam recv fh (bindErrFactory b) = (i, recv1)"
    by (cases "getOrAddParam recv fh (bindErrFactory b)")
  obtain ok recv2 in1 fname e2 m2 where
    l: "evalsLoop env i (EvalFuncs fh) (recv1, auto, snd (FieldSelector_Split fh), e, m) =
          (ok, (recv2, in1, fname, e2, m2))"
    by (metis prod_cases5)
  have "\<not> ok \<and> m' = m2"
    using assms False g l by (cases ok) (auto simp: fieldCallback_def Let_def)
  with l evalsLoop_failure [of env i "EvalFuncs fh" recv1 auto "snd (FieldSelector_Split fh)" e m
      recv2 in1 fname e2 m2]
  show ?thesis by simp
qed

lemma fieldCallback_skipped:
  "skipField env (level b) fh \<Longrightarrow> fieldCallback env b fh s = (True, s)"
  by (simp add: fieldCallback_def split: prod.splits)

lemma RangeFields_flags:
  "RangeFields (fieldCallback env b) fhs (recv, e, []) = (recv', e', []) \<Longrightarrow>
   hasVd recv' = (hasVd recv \<or> list_ex (carries env (MatchExprName env)) (visited env b fhs))
   \<and> hasAuto recv' = (hasAuto recv \<or> list_ex (\<lambda>fh. \<not> hasSourceDirective env fh) (visited env b fhs))
   \<and> hasQuery recv' = (hasQuery recv \<or> list_ex (carriesSource env ''query'') (visited env b fhs))
   \<and> hasPath recv' = (hasPath recv \<or> list_ex (carriesSource env ''path'') (visited env b fhs))
   \<and> hasCookie recv' = (hasCookie recv \<or> list_ex (carriesSource env ''cookie'') (visited env b fhs))
   \<and> hasBody recv' =
       (hasBody recv \<or> list_ex (\<lambda>fh. carriesSource env ''body'' fh \<or> \<not> hasSourceDirective env fh)
                          (visited env b fhs))
   \<and> hasRawBody recv' =
       (hasRawBody recv \<or> list_ex (carriesSource env ''raw_body'') (visited env b fhs))"
proof (induction fhs arbitrary: recv e)
  case Nil
  then show ?case by (simp add: visited_def)
next
  case (Cons fh fhs)
  show ?case
  proof (cases "skipField env (level b) fh")
    case True
    with Cons.prems have "RangeFields (fieldCallback env b) fhs (recv, e, []) = (recv', e', [])"
      by (simp add: fieldCallback_skipped)
    from Cons.IH [OF this] True show ?thesis by (simp add: visited_def)
  next
    case False
    obtain ok r1 e1 m1 where cb: "fieldCallback env b fh (recv, e, []) = (ok, (r1, e1, m1))"
      by (metis prod_cases4)
    have ok: "ok"
    proof (rule ccontr)
      assume "\<not> ok"
      with cb have c: "fieldCallback env b fh (recv, e, []) = (False, (r1, e1, m1))" by simp
      then have "m1 \<noteq> []" by (rule fieldCallback_failure)
      moreover from Cons.prems c have "m1 = []" by simp
      ultimately show False by simp
    qed
    with cb have cb': "fieldCallback env b fh (recv, e, []) = (True, (r1, e1, m1))" by simp
    note fl = fieldCallback_flags [OF False cb']
    then have m1: "m1 = []" by simp
    from Cons.prems cb' m1
    have "RangeFields (fieldCallback env b) fhs (r1, e1, []) = (recv', e', [])" by simp
    from Cons.IH [OF this] fl False show ?thesis
      by (simp add: visited_def)
  qed
qed

subsection \<open>Plan building: the traversal policy\<close>

lemma canHandle_foldl:
  "foldl (\<lambda>c (es, eval). if P es then True else c) c0 evals =
     (c0 \<or> list_ex (\<lambda>(es, eval). P es) evals)"
  by (induction evals arbitrary: c0) (auto split: prod.splits)

lemma canHandle_iff:
  "canHandle env evals =
     list_ex (\<lambda>(es, eval). es_Name env es \<in> {''raw_body'', ''body'', ''query'', ''path'',
                 ''header'', ''cookie'', ''required''}) evals"
  unfolding canHandle_def by (simp add: canHandle_foldl)

lemma RangeFields_visited:
  "RangeFields (fieldCallback env b) fhs s =
     RangeFields (fieldCallback env b) (visited env b fhs) s"
proof (induction fhs arbitrary: s)
  case Nil
  then show ?case by (simp add: visited_def)
next
  case (Cons fh fhs)
  show ?case
  proof (cases "skipField env (level b) fh")
    case True
    with Cons.IH show ?thesis by (simp add: visited_def fieldCallback_skipped)
  next
    case False
    with Cons.IH show ?thesis by (simp add: visited_def split: prod.splits bool.splits)
  qed
qed

lemma fieldCallback_cannot_set:
  "\<not> skipField env (level b) fh \<Longrightarrow> \<not> Value_CanSet fh \<Longrightarrow>
   fieldCallback env b fh (recv, e, m) =
     (False, (recv, StringSelector fh, ''field cannot be set: '' @ StringSelector fh))"
  by (simp add: fieldCallback_def)

lemma fieldCallback_describes:
  assumes ns: "\<not> skipField env (level b) fh" and cs: "Value_CanSet fh"
  shows "StringSelector fh \<in> fieldSelector ` set (params (fst (snd (fieldCallback env b fh s))))"
proof -
  obtain recv e m where s: "s = (recv, e, m)" by (cases s)
  obtain i recv1 where g: "getOrAddParam recv fh (bindErrFactory b) = (i, recv1)"
    by (cases "getOrAddParam recv fh (bindErrFactory b)")
  obtain ok recv2 in1 fname e2 m2 where
    l: "evalsLoop env i (EvalFuncs fh) (recv1, auto, snd (FieldSelector_Split fh), e, m) =
          (ok, (recv2, in1, fname, e2, m2))"
    by (metis prod_cases5)
  have sel: "map fieldSelector (params recv2) = map fieldSelector (params recv1)"
    using l by (rule evalsLoop_selectors)
  have "map fieldSelector (params (fst (snd (fieldCallback env b fh s)))) =
          map fieldSelector (params recv2)"
    using ns cs g l s by (cases ok) (auto simp: fieldCallback_def Let_def map_update map_update_same)
  then have m: "map fieldSelector (params (fst (snd (fieldCallback env b fh s)))) =
          map fieldSelector (params recv1)"
    using sel by simp
  from getOrAddParam_index [OF g]
  have "StringSelector fh \<in> set (map fieldSelector (params recv1))"
    by (metis length_map nth_map nth_mem)
  with m show ?thesis by (metis set_map)
qed

text \<open>
  Claim C4. The traversal policy decides for each field whether the callback of the walk
  returns at once, leaving the plan and the error state as they are. Under \<^verbatim>\<open>OnlyFirst\<close>
  that happens exactly for the fields that are not top-level (their selector has a
  non-empty path); under \<^verbatim>\<open>FirstAndTagged\<close> exactly for the fields that are not
  top-level and carry no sub-expression named \<^verbatim>\<open>raw_body\<close>, \<^verbatim>\<open>body\<close>, \<^verbatim>\<open>query\<close>,
  \<^verbatim>\<open>path\<close>, \<^verbatim>\<open>header\<close>, \<^verbatim>\<open>cookie\<close> or \<^verbatim>\<open>required\<close>; under \<^verbatim>\<open>Any\<close> for no field. A
  field that is not skipped is handled: the walk stops with an error when the field cannot
  be set, and otherwise the plan has a descriptor of the field afterwards. Hence the walk
  over all fields is the walk over the fields that are not skipped.
\<close>

theorem traversal_policy:
  "(level b = OnlyFirst \<longrightarrow>
      skipField env (level b) fh = (fst (FieldSelector_Split fh) \<noteq> []))
   \<and> (level b = FirstAndTagged \<longrightarrow>
        skipField env (level b) fh =
          (fst (FieldSelector_Split fh) \<noteq> []
           \<and> \<not> list_ex (\<lambda>(es, eval). es_Name env es \<in>
                           {''raw_body'', ''body'', ''query'', ''path'', ''header'', ''cookie'',
                            ''required''})
                  (EvalFuncs fh)))
   \<and> (level b = Any \<longrightarrow> \<not> skipField env (level b) fh)
   \<and> (skipField env (level b) fh \<longrightarrow> fieldCallback env b fh s = (True, s))
   \<and> (\<not> skipField env (level b) fh \<and> \<not> Value_CanSet fh \<longrightarrow>
        \<not> fst (fieldCallback env b fh s))
   \<and> (\<not> skipField env (level b) fh \<and> Value_CanSet fh \<longrightarrow>
        StringSelector fh \<in> fieldSelector ` set (params (fst (snd (fieldCallback env b fh s)))))
   \<and> RangeFields (fieldCallback env b) fhs s =
       RangeFields (fieldCallback env b) (visited env b fhs) s"
proof -
  have 1: "level b = OnlyFirst \<longrightarrow>
      skipField env (level b) fh = (fst (FieldSelector_Split fh) \<noteq> [])"
    by (simp add: skipField_def split: prod.splits)
  have 2: "level b = FirstAndTagged \<longrightarrow>
        skipField env (level b) fh =
          (fst (FieldSelector_Split fh) \<noteq> []
           \<and> \<not> list_ex (\<lambda>(es, eval). es_Name env es \<in>
                           {''raw_body'', ''body'', ''query'', ''path'', ''header'', ''cookie'',
                            ''required''})
                  (EvalFuncs fh))"
    by (simp add: skipField_def canHandle_iff OnlyFirst_def FirstAndTagged_def
        split: prod.splits)
  have 3: "level b = Any \<longrightarrow> \<not> skipField env (level b) fh"
    by (simp add: skipField_def OnlyFirst_def FirstAndTagged_def Any_def split: prod.splits)
  have 4: "skipField env (level b) fh \<longrightarrow> fieldCallback env b fh s = (True, s)"
    by (simp add: fieldCallback_skipped)
  have 5: "\<not> skipField env (level b) fh \<and> \<not> Value_CanSet fh \<longrightarrow>
        \<not> fst (fieldCallback env b fh s)"
    by (cases s) (simp add: fieldCallback_cannot_set)
  have 6: "\<not> skipField env (level b) fh \<and> Value_CanSet fh \<longrightarrow>
        StringSelector fh \<in> fieldSelector ` set (params (fst (snd (fieldCallback env b fh s))))"
    using fieldCallback_describes by blast
  have 7: "RangeFields (fieldCallback env b) fhs s =
       RangeFields (fieldCallback env b) (visited env b fhs) s"
    by (rule RangeFields_visited)
  from 1 2 3 4 5 6 7 show ?thesis by (intro conjI)
qed

theorem traversal_policy_witness:
  "\<not> skipField ex_env (level (SetLevel OnlyFirst ex_binding)) (ex_fieldsOf 6 ! 0)
   \<and> skipField ex_env (level (SetLevel OnlyFirst ex_binding)) (ex_fieldsOf 6 ! 1)
   \<and> \<not> skipField ex_env (level ex_binding) (ex_fieldsOf 6 ! 1)
   \<and> skipField ex_env (level ex_binding) (ex_fieldsOf 6 ! 2)
   \<and> \<not> skipField ex_env (level (SetLevel Any ex_binding)) (ex_fieldsOf 6 ! 2)
   \<and> fieldCallback ex_env ex_binding (ex_fieldsOf 6 ! 2) (newReceiver, [], []) =
       (True, (newReceiver, [], []))
   \<and> \<not> fst (fieldCallback ex_env ex_binding (ex_fieldsOf 5 ! 1) (newReceiver, [], []))
   \<and> map fieldSelector (params (fst (walkFields ex_env (SetLevel OnlyFirst ex_binding) 6))) =
       [''Info'']
   \<and> map fieldSelector (params (fst (walkFields ex_env ex_binding 6))) = [''Info'', ''Info.Id'']
   \<and> map fieldSelector (params (fst (walkFields ex_env (SetLevel Any ex_binding) 6))) =
       [''Info'', ''Info.Id'', ''Info.Note'']"
proof -
  let ?b0 = "SetLevel OnlyFirst ex_binding"
  let ?b2 = "SetLevel Any ex_binding"
  let ?s = "(newReceiver, [], []) :: ex_error walkState"
  have l0: "level ?b0 = OnlyFirst" and l1: "level ex_binding = FirstAndTagged"
    and l2: "level ?b2 = Any"
    by (simp_all add: SetLevel_def ex_binding_def)
  have a: "\<not> skipField ex_env (level ?b0) (ex_fieldsOf 6 ! 0)"
    using traversal_policy [where b = ?b0 and env = ex_env and fh = "ex_fieldsOf 6 ! 0"
        and s = ?s and fhs = "[]"] l0
    by (simp add: ex_fieldsOf_def)
  have b: "skipField ex_env (level ?b0) (ex_fieldsOf 6 ! 1)"
    using traversal_policy [where b = ?b0 and env = ex_env and fh = "ex_fieldsOf 6 ! 1"
        and s = ?s and fhs = "[]"] l0
    by (simp add: ex_fieldsOf_def)
  have c: "\<not> skipField ex_env (level ex_binding) (ex_fieldsOf 6 ! 1)"
    using traversal_policy [where b = ex_binding and env = ex_env and fh = "ex_fieldsOf 6 ! 1"
        and s = ?s and fhs = "[]"] l1
    by (simp add: ex_fieldsOf_def ex_env_def ex_Name_def)
  have d: "skipField ex_env (level ex_binding) (ex_fieldsOf 6 ! 2)"
    using traversal_policy [where b = ex_binding and env = ex_env and fh = "ex_fieldsOf 6 ! 2"
        and s = ?s and fhs = "[]"] l1
    by (simp add: ex_fieldsOf_def)
  have e: "\<not> skipField ex_env (level ?b2) (ex_fieldsOf 6 ! 2)"
    using traversal_policy [where b = ?b2 and env = ex_env and fh = "ex_fieldsOf 6 ! 2"
        and s = ?s and fhs = "[]"] l2
    by simp
  have f: "fieldCallback ex_env ex_binding (ex_fieldsOf 6 ! 2) ?s = (True, ?s)"
    using traversal_policy [where b = ex_binding and env = ex_env and fh = "ex_fieldsOf 6 ! 2"
        and s = ?s and fhs = "[]"] d
    by simp
  have ns5: "\<not> skipField ex_env (level ex_binding) (ex_fieldsOf 5 ! 1)"
    by (simp add: ex_build_simps)
  have cs5: "\<not> Value_CanSet (ex_fieldsOf 5 ! 1)"
    by (simp add: ex_fieldsOf_def)
  have g: "\<not> fst (fieldCallback ex_env ex_binding (ex_fieldsOf 5 ! 1) ?s)"
    using traversal_policy [where b = ex_binding and env = ex_env and fh = "ex_fieldsOf 5 ! 1"
        and s = ?s and fhs = "[]"] ns5 cs5
    by simp
  have w0: "map fieldSelector (params (fst (walkFields ex_env ?b0 6))) = [''Info'']"
    by (simp add: ex_build_simps SetLevel_def)
  have w1: "map fieldSelector (params (fst (walkFields ex_env ex_binding 6))) =
              [''Info'', ''Info.Id'']"
    by (simp add: ex_build_simps)
  have w2: "map fieldSelector (params (fst (walkFields ex_env ?b2 6))) =
              [''Info'', ''Info.Id'', ''Info.Note'']"
    by (simp add: ex_build_simps SetLevel_def)
  from a b c d e f g w0 w1 w2 show ?thesis by (intro conjI)
qed

subsection \<open>Plan building: the flags\<close>

lemma prepare_success:
  assumes run: "RunZero env (vd b) v = Inr expr"
    and walk: "walkFields env b expr = (recv, es, [])"
  shows "prepare env b v = Inr (initParams env recv)"
  using assms by (simp add: prepare_def)

lemma walkFields_flags:
  assumes walk: "walkFields env b expr = (recv, es, [])"
  shows "hasVd recv = list_ex (carries env (MatchExprName env)) (visited env b (fieldsOf env expr))
   \<and> hasAuto recv = list_ex (\<lambda>fh. \<not> hasSourceDirective env fh) (visited env b (fieldsOf env expr))
   \<and> hasQuery recv = list_ex (carriesSource env ''query'') (visited env b (fieldsOf env expr))
   \<and> hasPath recv = list_ex (carriesSource env ''path'') (visited env b (fieldsOf env expr))
   \<and> hasCookie recv = list_ex (carriesSource env ''cookie'') (visited env b (fieldsOf env expr))
   \<and> hasBody recv =
       list_ex (\<lambda>fh. carriesSource env ''body'' fh \<or> \<not> hasSourceDirective env fh)
         (visited env b (fieldsOf env expr))
   \<and> hasRawBody recv =
       list_ex (carriesSource env ''raw_body'') (visited env b (fieldsOf env expr))"
  using RangeFields_flags [OF walk [unfolded walkFields_def]] by (simp add: newReceiver_def)

text \<open>
  Claim C6, as amended. When the compilation succeeds and the walk ends without an error
  message, the plan is what \<^verbatim>\<open>initParams\<close> makes of the plan the walk leaves, and the
  flags the walk leaves are these. \<^verbatim>\<open>hasQuery\<close>, \<^verbatim>\<open>hasPath\<close>, \<^verbatim>\<open>hasCookie\<close> and
  \<^verbatim>\<open>hasRawBody\<close> say whether some field that the traversal policy does not skip carries
  the directive of that source; \<^verbatim>\<open>hasBody\<close> says whether some such field carries the
  \<^verbatim>\<open>body\<close> directive or no source directive at all; \<^verbatim>\<open>hasAuto\<close> says whether some such
  field carries no source directive; \<^verbatim>\<open>hasVd\<close> says whether some such field carries a
  validation sub-expression. There is no flag for the header source.
\<close>

theorem plan_flags_by_directive:
  assumes run: "RunZero env (vd b) v = Inr expr"
    and walk: "walkFields env b expr = (recv, es, [])"
  shows "prepare env b v = Inr (initParams env recv)
   \<and> hasQuery recv = list_ex (carriesSource env ''query'') (visited env b (fieldsOf env expr))
   \<and> hasPath recv = list_ex (carriesSource env ''path'') (visited env b (fieldsOf env expr))
   \<and> hasCookie recv = list_ex (carriesSource env ''cookie'') (visited env b (fieldsOf env expr))
   \<and> hasRawBody recv =
       list_ex (carriesSource env ''raw_body'') (visited env b (fieldsOf env expr))
   \<and> hasBody recv =
       list_ex (\<lambda>fh. carriesSource env ''body'' fh \<or> \<not> hasSourceDirective env fh)
         (visited env b (fieldsOf env expr))
   \<and> hasAuto recv = list_ex (\<lambda>fh. \<not> hasSourceDirective env fh) (visited env b (fieldsOf env expr))
   \<and> hasVd recv = list_ex (carries env (MatchExprName env)) (visited env b (fieldsOf env expr))"
  using prepare_success [OF run walk] walkFields_flags [OF walk] by simp

theorem plan_flags_by_directive_witness:
  "prepare ex_env ex_binding (VStruct 7 True) = Inr ex_plan7
   \<and> flagsOf ex_plan7 = (False, True, False, True, False, False, False)
   \<and> list_ex (carriesSource ex_env ''query'') (visited ex_env ex_binding (fieldsOf ex_env 7))
   \<and> list_ex (carriesSource ex_env ''path'') (visited ex_env ex_binding (fieldsOf ex_env 7))
   \<and> \<not> list_ex (\<lambda>fh. \<not> hasSourceDirective ex_env fh)
          (visited ex_env ex_binding (fieldsOf ex_env 7))
   \<and> prepare ex_env ex_binding (VStruct 2 True) = Inr ex_plan2
   \<and> flagsOf ex_plan2 = (True, False, False, False, True, False, False)
   \<and> list_ex (\<lambda>fh. \<not> hasSourceDirective ex_env fh)
        (visited ex_env ex_binding (fieldsOf ex_env 2))"
proof -
  have run7: "RunZero ex_env (vd ex_binding) (VStruct 7 True) = Inr 7"
    and run2: "RunZero ex_env (vd ex_binding) (VStruct 2 True) = Inr 2"
    by (simp_all add: ex_env_def)
  have walk7: "walkFields ex_env ex_binding 7 = (ex_plan7, [], [])"
    by (simp add: ex_build_simps ex_plan7_def)
  have walk2: "walkFields ex_env ex_binding 2 = (ex_plan2, [], [])"
    by (simp add: ex_build_simps ex_plan2_def)
  have init: "initParams ex_env = (\<lambda>recv. recv)"
    by (simp add: ex_env_def)
  note t7 = plan_flags_by_directive [OF run7 walk7, unfolded init]
  note t2 = plan_flags_by_directive [OF run2 walk2, unfolded init]
  have f7: "flagsOf ex_plan7 = (False, True, False, True, False, False, False)"
    by (simp add: flagsOf_def ex_plan7_def)
  have f2: "flagsOf ex_plan2 = (True, False, False, False, True, False, False)"
    by (simp add: flagsOf_def ex_plan2_def)
  have q7: "hasQuery ex_plan7" "hasPath ex_plan7" "\<not> hasAuto ex_plan7"
    by (simp_all add: ex_plan7_def)
  have a2: "hasAuto ex_plan2" by (simp add: ex_plan2_def)
  from t7 t2 f7 f2 q7 a2 show ?thesis by simp
qed

text \<open>
  The claim as stated, with a flag for each of seven sources, fails for \<^verbatim>\<open>header\<close>: the
  plan of a type whose only field reads from the header has the same flags, all unset, as
  the plan of a type with no field.
\<close>

theorem plan_flags_header_counterexample:
  "map_sum id (\<lambda>recv. (map p_in (params recv), flagsOf recv))
     (prepare ex_env ex_binding (VStruct 8 True)) =
     Inr ([header], (False, False, False, False, False, False, False))
   \<and> map_sum id (\<lambda>recv. (map p_in (params recv), flagsOf recv))
     (prepare ex_env ex_binding (VStruct 9 True)) =
     Inr ([], (False, False, False, False, False, False, False))"
  by (simp add: ex_build_simps flagsOf_def)

subsection \<open>Dispatch\<close>

text \<open>The loop over the descriptors is a sequential composition, its successful runs are
  a fold, and whatever every step preserves the loop preserves.\<close>

lemma bindParams_append:
  "bindParams env src (ps @ qs) w =
     (case bindParams env src ps w of
        (Some err, w') \<Rightarrow> (Some err, w')
      | (None, w') \<Rightarrow> bindParams env src qs w')"
  by (induction ps arbitrary: w) (auto split: prod.splits option.splits)

lemma bindParams_success_fold:
  "bindParams env src ps w = (None, w1) \<Longrightarrow>
   w1 = foldl (\<lambda>w' q. snd (bindParam env src q w')) w ps"
  by (induction ps arbitrary: w) (auto split: prod.splits option.splits)

lemma bindParams_frame:
  assumes own: "\<And>q w'. q \<in> set ps \<Longrightarrow> rd (snd (bindParam env src q w')) = rd w'"
  shows "rd (snd (bindParams env src ps w)) = rd w"
  using own
proof (induction ps arbitrary: w)
  case Nil
  then show ?case by simp
next
  case (Cons q ps)
  have step: "rd (snd (bindParam env src q w)) = rd w"
    using Cons.prems by simp
  show ?case
  proof (cases "bindParam env src q w")
    case (Pair r w')
    with step have w': "rd w' = rd w" by simp
    show ?thesis
    proof (cases r)
      case None
      with Pair w' Cons.IH [of w'] Cons.prems show ?thesis by simp
    next
      case (Some e)
      with Pair w' show ?thesis by simp
    qed
  qed
qed

lemma bind_unfold:
  assumes "getObjOrPrepare env b v = (Inr recv, b')"
    and "gather env b' recv v req pp w = Inr src"
  shows "bind env b v req pp w =
           ((hasVd recv, fst (bindParams env src (params recv) w)), b',
            snd (bindParams env src (params recv) w))"
  using assms by (simp add: bind_def split: prod.splits)

text \<open>When its three fallible steps succeed, \<^verbatim>\<open>bind\<close> hands to the loop the values it
  computed from the request; the \<^verbatim>\<open>switch\<close> of the loop calls the binder that matches the
  source of the descriptor on those values; and at a descriptor whose predecessors were
  bound without error, the result of \<^verbatim>\<open>bind\<close> is decided by the step of that descriptor.\<close>

lemma gather_requestValues:
  assumes "Run env (vd b') v w = Inr expr"
    and "getBodyBytes env recv req (getBodyCodec env recv req = jsonBody env) = Inr bodyBytes"
    and "getPostForm env recv req (getBodyCodec env recv req = formBody env) = Inr postForm"
  shows "gather env b' recv v req pp w = Inr (requestValues env recv req pp expr bodyBytes postForm)"
  using assms by (simp add: gather_def requestValues_def Let_def)

lemma bindParam_dispatch:
  "bindParam env (requestValues env recv req pp expr bodyBytes postForm) p w =
     (case p_in p of
        query \<Rightarrow> dropFound (bindQuery env p expr (getQuery env recv req) w)
      | path \<Rightarrow> dropFound (bindPath env p expr pp w)
      | header \<Rightarrow> dropFound (bindHeader env p expr (req_Header env req) w)
      | cookie \<Rightarrow> bindCookie env p expr (getCookies env recv req) w
      | body \<Rightarrow> dropFound (bindBody env p expr (getBodyCodec env recv req) postForm bodyBytes w)
      | raw_body \<Rightarrow> bindRawBody env p expr bodyBytes w
      | auto \<Rightarrow>
          (if fst (fst (bindBody env p expr (getBodyCodec env recv req) postForm bodyBytes w))
           then dropFound (bindBody env p expr (getBodyCodec env recv req) postForm bodyBytes w)
           else dropFound
                  (bindQuery env p expr (getQuery env recv req)
                     (snd (bindBody env p expr (getBodyCodec env recv req) postForm bodyBytes
                             w)))))"
  by (simp add: bindParam_def requestValues_def dropFound_def split: in_t.splits prod.splits)

lemma bind_at_descriptor:
  assumes plan: "getObjOrPrepare env b v = (Inr recv, b')"
    and run: "Run env (vd b') v w = Inr expr"
    and bytes: "getBodyBytes env recv req (getBodyCodec env recv req = jsonBody env) = Inr bodyBytes"
    and form: "getPostForm env recv req (getBodyCodec env recv req = formBody env) = Inr postForm"
    and src: "src = requestValues env recv req pp expr bodyBytes postForm"
    and split: "params recv = ps @ p # qs"
    and before: "bindParams env src ps w = (None, w1)"
  shows "bind env b v req pp w =
           (case bindParam env src p w1 of
              (Some err, w2) \<Rightarrow> ((hasVd recv, Some err), b', w2)
            | (None, w2) \<Rightarrow>
                ((hasVd recv, fst (bindParams env src qs w2)), b',
                 snd (bindParams env src qs w2)))"
proof -
  have g: "gather env b' recv v req pp w = Inr src"
    unfolding src using run bytes form by (rule gather_requestValues)
  have whole: "bindParams env src (params recv) w = bindParams env src (p # qs) w1"
    using before by (simp add: split bindParams_append)
  show ?thesis
    using bind_unfold [OF plan g] whole by (simp split: prod.splits option.splits)
qed

text \<open>The binders of the spec write the field of their own descriptor only.\<close>

lemma specBind_frame: "f \<noteq> fieldSelector p \<Longrightarrow> snd (specBind xt p source looked w) f = w f"
  by (simp add: specBind_def split: option.splits sum.splits)

lemma spec_bindParam_frame:
  "f \<noteq> fieldSelector p \<Longrightarrow> snd (bindParam (withSpecBinders xt env0) src p w) f = w f"
proof -
  assume f: "f \<noteq> fieldSelector p"
  have sb: "\<And>source looked w'. snd (specBind xt p source looked w') f = w' f"
    using f by (simp add: specBind_frame)
  have sb': "\<And>source looked w' c e w''.
               specBind xt p source looked w' = ((c, e), w'') \<Longrightarrow> w'' f = w' f"
    using sb by (metis snd_conv)
  show ?thesis
    using f
    by (cases "p_in p")
      (auto simp: bindParam_def withSpecBinders_def dropFound_def sb
        split: prod.splits dest!: sb')
qed

lemma spec_bindParams_frame:
  assumes "f \<notin> fieldSelector ` set ps"
  shows "snd (bindParams (withSpecBinders xt env0) src ps w) f = w f"
proof -
  have own: "snd (bindParam (withSpecBinders xt env0) src q w') f = w' f"
    if "q \<in> set ps" for q w'
  proof -
    from that assms have "f \<noteq> fieldSelector q" by auto
    then show ?thesis by (rule spec_bindParam_frame)
  qed
  from bindParams_frame [where rd = "\<lambda>s. s f" and ps = ps, OF own]
  show ?thesis by simp
qed

lemma spec_bindParam_dispatch:
  assumes env: "env = withSpecBinders xt env0"
  shows "bindParam env (requestValues env recv req pp expr bodyBytes postForm) p w =
     (case p_in p of
        query \<Rightarrow> dropFound (specBind xt p query (getQuery env recv req (name p)) w)
      | path \<Rightarrow> dropFound (specBind xt p path (x_path xt pp (name p)) w)
      | header \<Rightarrow> dropFound (specBind xt p header (req_Header env req (name p)) w)
      | cookie \<Rightarrow>
          dropFound (specBind xt p cookie (specCookie (getCookies env recv req) (name p)) w)
      | body \<Rightarrow>
          dropFound
            (specBind xt p body
               (x_body xt (getBodyCodec env recv req) postForm bodyBytes (name p)) w)
      | raw_body \<Rightarrow> (None, w(fieldSelector p \<mapsto> x_raw xt bodyBytes))
      | auto \<Rightarrow>
          (case x_body xt (getBodyCodec env recv req) postForm bodyBytes (name p) of
             Some found \<Rightarrow>
               dropFound (specBind xt p body (Some found) w)
           | None \<Rightarrow> dropFound (specBind xt p query (getQuery env recv req (name p)) w)))"
  unfolding bindParam_dispatch
  by (simp add: env withSpecBinders_def specBind_def dropFound_def
      split: in_t.splits option.splits sum.splits)

text \<open>
  Claim C1. Let the binders be those the spec describes. Let a plan be obtained for the
  value, let the three fallible steps before the loop succeed, and let \<open>p\<close> be a
  descriptor of the plan such that every descriptor before it, in plan order, was bound
  without error, leaving the destination \<open>w1\<close>. Then \<open>w1\<close> is the result of running the
  steps of those descriptors in plan order on the values of the request; the step of
  \<open>p\<close> looks the name of \<open>p\<close> up in the source of \<open>p\<close> as \<^verbatim>\<open>bind\<close> computed it from the
  request; if that step fails, \<^verbatim>\<open>bind\<close> returns its error and the destination as it left
  it, and no descriptor after \<open>p\<close> is processed; if it succeeds, \<^verbatim>\<open>bind\<close> goes on with
  the descriptors after \<open>p\<close>. Binding never mutates a field processed later: when the turn
  of \<open>p\<close> comes, every field that is not the field of an earlier descriptor is as it was
  before the call, and when \<open>p\<close> fails the same holds of every field other than those of
  \<open>p\<close> and the earlier descriptors.
\<close>

theorem dispatch_stops_at_first_error:
  assumes env: "env = withSpecBinders xt env0"
    and plan: "getObjOrPrepare env b v = (Inr recv, b')"
    and run: "Run env (vd b') v w = Inr expr"
    and bytes: "getBodyBytes env recv req (getBodyCodec env recv req = jsonBody env) = Inr bodyBytes"
    and form: "getPostForm env recv req (getBodyCodec env recv req = formBody env) = Inr postForm"
    and src: "src = requestValues env recv req pp expr bodyBytes postForm"
    and split: "params recv = ps @ p # qs"
    and before: "bindParams env src ps w = (None, w1)"
  shows "w1 = foldl (\<lambda>w' q. snd (bindParam env src q w')) w ps
   \<and> bindParam env src p w1 =
       (case p_in p of
          query \<Rightarrow> dropFound (specBind xt p query (getQuery env recv req (name p)) w1)
        | path \<Rightarrow> dropFound (specBind xt p path (x_path xt pp (name p)) w1)
        | header \<Rightarrow> dropFound (specBind xt p header (req_Header env req (name p)) w1)
        | cookie \<Rightarrow>
            dropFound (specBind xt p cookie (specCookie (getCookies env recv req) (name p)) w1)
        | body \<Rightarrow>
            dropFound
              (specBind xt p body
                 (x_body xt (getBodyCodec env recv req) postForm bodyBytes (name p)) w1)
        | raw_body \<Rightarrow> (None, w1(fieldSelector p \<mapsto> x_raw xt bodyBytes))
        | auto \<Rightarrow>
            (case x_body xt (getBodyCodec env recv req) postForm bodyBytes (name p) of
               Some found \<Rightarrow> dropFound (specBind xt p body (Some found) w1)
             | None \<Rightarrow> dropFound (specBind xt p query (getQuery env recv req (name p)) w1)))
   \<and> (bindParam env src p w1 = (Some err, w2) \<longrightarrow>
        bind env b v req pp w = ((hasVd recv, Some err), b', w2)
        \<and> (\<forall>f. f \<notin> fieldSelector ` set (ps @ [p]) \<longrightarrow> w2 f = w f))
   \<and> (bindParam env src p w1 = (None, w2) \<longrightarrow>
        bind env b v req pp w =
          ((hasVd recv, fst (bindParams env src qs w2)), b', snd (bindParams env src qs w2)))
   \<and> (\<forall>f. f \<notin> fieldSelector ` set ps \<longrightarrow> w1 f = w f)"
proof -
  have fold: "w1 = foldl (\<lambda>w' q. snd (bindParam env src q w')) w ps"
    using before by (rule bindParams_success_fold)
  have step: "bindParam env src p w1 =
       (case p_in p of
          query \<Rightarrow> dropFound (specBind xt p query (getQuery env recv req (name p)) w1)
        | path \<Rightarrow> dropFound (specBind xt p path (x_path xt pp (name p)) w1)
        | header \<Rightarrow> dropFound (specBind xt p header (req_Header env req (name p)) w1)
        | cookie \<Rightarrow>
            dropFound (specBind xt p cookie (specCookie (getCookies env recv req) (name p)) w1)
        | body \<Rightarrow>
            dropFound
              (specBind xt p body
                 (x_body xt (getBodyCodec env recv req) postForm bodyBytes (name p)) w1)
        | raw_body \<Rightarrow> (None, w1(fieldSelector p \<mapsto> x_raw xt bodyBytes))
        | auto \<Rightarrow>
            (case x_body xt (getBodyCodec env recv req) postForm bodyBytes (name p) of
               Some found \<Rightarrow> dropFound (specBind xt p body (Some found) w1)
             | None \<Rightarrow> dropFound (specBind xt p query (getQuery env recv req (name p)) w1)))"
    unfolding src using env by (rule spec_bindParam_dispatch)
  note at = bind_at_descriptor [OF plan run bytes form src split before]
  have early: "w1 f = w f" if "f \<notin> fieldSelector ` set ps" for f
    using spec_bindParams_frame [OF that, of xt env0 src w] before by (simp add: env)
  have fail: "bind env b v req pp w = ((hasVd recv, Some err), b', w2)
              \<and> (\<forall>f. f \<notin> fieldSelector ` set (ps @ [p]) \<longrightarrow> w2 f = w f)"
    if f: "bindParam env src p w1 = (Some err, w2)"
  proof
    show "bind env b v req pp w = ((hasVd recv, Some err), b', w2)"
      using at f by simp
    show "\<forall>f. f \<notin> fieldSelector ` set (ps @ [p]) \<longrightarrow> w2 f = w f"
    proof (intro allI impI)
      fix g
      assume g: "g \<notin> fieldSelector ` set (ps @ [p])"
      then have g1: "g \<notin> fieldSelector ` set ps" and g2: "g \<noteq> fieldSelector p" by auto
      have "w2 g = w1 g"
        using spec_bindParam_frame [OF g2, of xt env0 src w1] f by (simp add: env)
      with early [OF g1] show "w2 g = w g" by simp
    qed
  qed
  have ok: "bind env b v req pp w =
          ((hasVd recv, fst (bindParams env src qs w2)), b', snd (bindParams env src qs w2))"
    if "bindParam env src p w1 = (None, w2)"
    using at that by simp
  from fold step fail ok early show ?thesis by blast
qed

lemmas ex_spec_simps =
  ex_spec_env_def withSpecBinders_def ex_env_dest_def ex_xt_def specBind_def specCookie_def
  dropFound_def

theorem dispatch_stops_at_first_error_witness:
  "bind ex_spec_env ex_binding (VStruct 7 True) ex_req_no_page (map_of [(''id'', [''7''])])
     Map.empty =
     ((False, Some (BindError ''Page'' ''missing required parameter'')),
      ex_binding\<lparr>recvs := (recvs ex_binding)(7 \<mapsto> ex_plan7)\<rparr>, [''Id'' \<mapsto> ''7''])
   \<and> [''Id'' \<mapsto> ''7''] ''Token'' = None
   \<and> req_Header ex_spec_env ex_req_no_page ''X-Token'' = Some [''abc'']"
proof -
  let ?id = "\<lparr>fieldSelector = ''Id'', p_bindErrFactory = BindError, p_in = path, name = ''id'',
          required = False\<rparr>"
  let ?page = "\<lparr>fieldSelector = ''Page'', p_bindErrFactory = BindError, p_in = query,
          name = ''page'', required = True\<rparr>"
  let ?token = "\<lparr>fieldSelector = ''Token'', p_bindErrFactory = BindError, p_in = header,
          name = ''X-Token'', required = False\<rparr>"
  let ?b7 = "ex_binding\<lparr>recvs := (recvs ex_binding)(7 \<mapsto> ex_plan7)\<rparr>"
  let ?pp = "map_of [(''id'', [''7''])] :: Values"
  let ?src = "requestValues ex_spec_env ex_plan7 ex_req_no_page ?pp 7 [] Map.empty"
  let ?err = "BindError ''Page'' ''missing required parameter''"
  let ?w = "Map.empty :: string dest"
  have env: "ex_spec_env = withSpecBinders ex_xt ex_env_dest"
    by (simp add: ex_spec_env_def)
  have plan: "getObjOrPrepare ex_spec_env ex_binding (VStruct 7 True) = (Inr ex_plan7, ?b7)"
    by (simp add: ex_spec_simps getObjOrPrepare_def prepare_def ex_binding_def ex_fieldsOf_def
        fieldCallback_def skipField_def canHandle_def FirstAndTagged_def OnlyFirst_def
        getOrAddParam_def ex_Name_def sourceCase_def newReceiver_def evalStep_def
        walkFields_def ex_plan7_def)
  have run: "Run ex_spec_env (vd ?b7) (VStruct 7 True) ?w = Inr 7"
    by (simp add: ex_spec_simps)
  have bytes: "getBodyBytes ex_spec_env ex_plan7 ex_req_no_page
                 (getBodyCodec ex_spec_env ex_plan7 ex_req_no_page = jsonBody ex_spec_env) = Inr []"
    by (simp add: ex_spec_simps)
  have form: "getPostForm ex_spec_env ex_plan7 ex_req_no_page
                 (getBodyCodec ex_spec_env ex_plan7 ex_req_no_page = formBody ex_spec_env) =
               Inr Map.empty"
    by (simp add: ex_spec_simps ex_req_no_page_def)
  have split: "params ex_plan7 = [?id] @ ?page # [?token]"
    by (simp add: ex_plan7_def)
  have before: "bindParams ex_spec_env ?src [?id] ?w = (None, [''Id'' \<mapsto> ''7''])"
    by (simp add: bindParam_def requestValues_def ex_spec_simps)
  have fails: "bindParam ex_spec_env ?src ?page [''Id'' \<mapsto> ''7''] = (Some ?err, [''Id'' \<mapsto> ''7''])"
    by (simp add: bindParam_def requestValues_def ex_spec_simps ex_req_no_page_def)
  note inst = dispatch_stops_at_first_error
      [where err = ?err and ?w2.0 = "[''Id'' \<mapsto> ''7'']",
        OF env plan run bytes form refl split before]
  from inst fails
  have r: "bind ex_spec_env ex_binding (VStruct 7 True) ex_req_no_page ?pp ?w =
             ((hasVd ex_plan7, Some ?err), ?b7, [''Id'' \<mapsto> ''7''])"
    and later: "\<forall>f. f \<notin> fieldSelector ` set ([?id] @ [?page]) \<longrightarrow>
                  [''Id'' \<mapsto> ''7''] f = ?w f"
    by blast+
  from later have "[''Id'' \<mapsto> ''7''] ''Token'' = None" by simp
  moreover have "hasVd ex_plan7 = False" by (simp add: ex_plan7_def)
  moreover have "req_Header ex_spec_env ex_req_no_page ''X-Token'' = Some [''abc'']"
    by (simp add: ex_spec_simps ex_req_no_page_def)
  ultimately show ?thesis using r by simp
qed

text \<open>
  Claim C2. Let a plan be obtained for the value, let the three fallible steps before
  the loop succeed, and let \<open>p\<close> be a descriptor with the source \<^verbatim>\<open>auto\<close> whose
  predecessors in the plan were bound without error. Dispatch calls the body binder
  first, on the codec, the form and the body bytes that \<^verbatim>\<open>bind\<close> computed from the request.
  When the body binder reports a value found, the step of \<open>p\<close> and the result of \<^verbatim>\<open>bind\<close>
  are decided by the body binder alone, whatever the query values are. When it reports
  none, the query binder is called on the query values of the request and on the
  destination as the body binder left it, and it decides the step and the result of
  \<^verbatim>\<open>bind\<close>. At plan time, the descriptor that the callback of the walk writes for a field it
  handles has the source \<^verbatim>\<open>auto\<close> exactly when the field carries no source directive.
\<close>

theorem auto_binds_body_then_query:
  assumes plan: "getObjOrPrepare env b v = (Inr recv, b')"
    and run: "Run env (vd b') v w = Inr expr"
    and bytes: "getBodyBytes env recv req (getBodyCodec env recv req = jsonBody env) = Inr bodyBytes"
    and form: "getPostForm env recv req (getBodyCodec env recv req = formBody env) = Inr postForm"
    and src: "src = requestValues env recv req pp expr bodyBytes postForm"
    and split: "params recv = ps @ p # qs"
    and before: "bindParams env src ps w = (None, w1)"
    and auto: "p_in p = auto"
    and fromBody: "bindBody env p expr (getBodyCodec env recv req) postForm bodyBytes w1 =
                     ((found, err), w2)"
  shows "(found \<longrightarrow>
            bindParam env src p w1 = (err, w2)
            \<and> bindParam env (src\<lparr>s_queryValues := qv\<rparr>) p w1 = (err, w2)
            \<and> bind env b v req pp w =
                (case err of
                   Some e \<Rightarrow> ((hasVd recv, Some e), b', w2)
                 | None \<Rightarrow>
                     ((hasVd recv, fst (bindParams env src qs w2)), b',
                      snd (bindParams env src qs w2))))
   \<and> (\<not> found \<longrightarrow>
        bindParam env src p w1 = dropFound (bindQuery env p expr (getQuery env recv req) w2)
        \<and> bind env b v req pp w =
            (case dropFound (bindQuery env p expr (getQuery env recv req) w2) of
               (Some e, w3) \<Rightarrow> ((hasVd recv, Some e), b', w3)
             | (None, w3) \<Rightarrow>
                 ((hasVd recv, fst (bindParams env src qs w3)), b',
                  snd (bindParams env src qs w3))))
   \<and> (\<not> skipField env (level b0) fh
        \<and> fieldCallback env b0 fh (r0, e0, m0) = (True, (r1, e1, m1))
        \<and> getOrAddParam r0 fh (bindErrFactory b0) = (i, r2) \<longrightarrow>
        fieldSelector (params r1 ! i) = StringSelector fh
        \<and> (p_in (params r1 ! i) = auto) = (\<not> hasSourceDirective env fh))"
proof -
  note at = bind_at_descriptor [OF plan run bytes form src split before]
  have step: "bindParam env src p w1 =
                (if found then (err, w2)
                 else dropFound (bindQuery env p expr (getQuery env recv req) w2))"
    unfolding src bindParam_dispatch using auto fromBody by (simp add: dropFound_def)
  have step': "found \<longrightarrow> bindParam env (src\<lparr>s_queryValues := qv\<rparr>) p w1 = (err, w2)"
    using auto fromBody by (simp add: src bindParam_def requestValues_def)
  have a: "found \<longrightarrow>
            bindParam env src p w1 = (err, w2)
            \<and> bindParam env (src\<lparr>s_queryValues := qv\<rparr>) p w1 = (err, w2)
            \<and> bind env b v req pp w =
                (case err of
                   Some e \<Rightarrow> ((hasVd recv, Some e), b', w2)
                 | None \<Rightarrow>
                     ((hasVd recv, fst (bindParams env src qs w2)), b',
                      snd (bindParams env src qs w2)))"
    using at step step' by (simp split: option.splits)
  have b: "\<not> found \<longrightarrow>
        bindParam env src p w1 = dropFound (bindQuery env p expr (getQuery env recv req) w2)
        \<and> bind env b v req pp w =
            (case dropFound (bindQuery env p expr (getQuery env recv req) w2) of
               (Some e, w3) \<Rightarrow> ((hasVd recv, Some e), b', w3)
             | (None, w3) \<Rightarrow>
                 ((hasVd recv, fst (bindParams env src qs w3)), b',
                  snd (bindParams env src qs w3)))"
    using at step by simp
  have c: "\<not> skipField env (level b0) fh
        \<and> fieldCallback env b0 fh (r0, e0, m0) = (True, (r1, e1, m1))
        \<and> getOrAddParam r0 fh (bindErrFactory b0) = (i, r2) \<longrightarrow>
        fieldSelector (params r1 ! i) = StringSelector fh
        \<and> (p_in (params r1 ! i) = auto) = (\<not> hasSourceDirective env fh)"
    using fieldCallback_descriptor [of env b0 fh r0 e0 m0 r1 e1 m1 i r2] by blast
  from a b c show ?thesis by (intro conjI)
qed

theorem auto_binds_body_then_query_witness:
  "bind ex_env ex_binding (VStruct 2 True) ex_req_both Map.empty [] =
     ((False, None), ex_binding\<lparr>recvs := (recvs ex_binding)(2 \<mapsto> ex_plan2)\<rparr>,
      [(''Name'', ''b'')])
   \<and> getQuery ex_env ex_plan2 ex_req_both ''Name'' = Some [''q'']
   \<and> bind ex_env ex_binding (VStruct 2 True) ex_req_query Map.empty [] =
     ((False, None), ex_binding\<lparr>recvs := (recvs ex_binding)(2 \<mapsto> ex_plan2)\<rparr>,
      [(''Name'', ''q'')])
   \<and> fieldCallback ex_env ex_binding (ex_fieldsOf 2 ! 0) (newReceiver, [], []) =
     (True, (ex_plan2, [], []))
   \<and> \<not> hasSourceDirective ex_env (ex_fieldsOf 2 ! 0)
   \<and> p_in (params ex_plan2 ! 0) = auto"
proof -
  let ?p = "\<lparr>fieldSelector = ''Name'', p_bindErrFactory = BindError, p_in = auto,
          name = ''Name'', required = False\<rparr> :: ex_error paramInfo"
  let ?b2 = "ex_binding\<lparr>recvs := (recvs ex_binding)(2 \<mapsto> ex_plan2)\<rparr>"
  let ?fh = "ex_fieldsOf 2 ! 0"
  let ?new = "\<lparr>params =
        [\<lparr>fieldSelector = ''Name'', p_bindErrFactory = BindError, p_in = auto,
          name = [], required = False\<rparr>],
      hasAuto = False, hasQuery = False, hasCookie = False, hasPath = False, hasBody = False,
      hasRawBody = False, hasVd = False\<rparr> :: ex_error receiver"
  let ?formB = "map_of [(''Name'', [''b''])] :: Values"
  let ?formQ = "map_of [(''Other'', [''b''])] :: Values"
  have run: "\<And>w. Run ex_env (vd ?b2) (VStruct 2 True) w = Inr 2"
    by (simp add: ex_env_def)
  have bytes: "\<And>req. getBodyBytes ex_env ex_plan2 req
                 (getBodyCodec ex_env ex_plan2 req = jsonBody ex_env) = Inr []"
    by (simp add: ex_env_def)
  have formB: "getPostForm ex_env ex_plan2 ex_req_both
                 (getBodyCodec ex_env ex_plan2 ex_req_both = formBody ex_env) = Inr ?formB"
    by (simp add: ex_env_def ex_req_both_def)
  have formQ: "getPostForm ex_env ex_plan2 ex_req_query
                 (getBodyCodec ex_env ex_plan2 ex_req_query = formBody ex_env) = Inr ?formQ"
    by (simp add: ex_env_def ex_req_query_def)
  have split: "params ex_plan2 = [] @ ?p # []"
    by (simp add: ex_plan2_def)
  have before: "\<And>src. bindParams ex_env src [] [] = (None, [])"
    by simp
  have a: "p_in ?p = auto" by simp
  have bodyB: "bindBody ex_env ?p 2 (getBodyCodec ex_env ex_plan2 ex_req_both) ?formB [] [] =
                 ((True, None), [(''Name'', ''b'')])"
    by (simp add: ex_env_def ex_bindValues_def ex_req_both_def)
  have bodyQ: "bindBody ex_env ?p 2 (getBodyCodec ex_env ex_plan2 ex_req_query) ?formQ [] [] =
                 ((False, None), [])"
    by (simp add: ex_env_def ex_bindValues_def ex_req_query_def)
  have queryQ: "bindQuery ex_env ?p 2 (getQuery ex_env ex_plan2 ex_req_query) [] =
                 ((True, None), [(''Name'', ''q'')])"
    by (simp add: ex_env_def ex_bindValues_def ex_req_query_def)
  have ns: "\<not> skipField ex_env (level ex_binding) ?fh"
    by (simp add: ex_build_simps)
  have cb: "fieldCallback ex_env ex_binding ?fh (newReceiver, [], []) = (True, (ex_plan2, [], []))"
    by (simp add: ex_build_simps ex_plan2_def)
  have g: "getOrAddParam newReceiver ?fh (bindErrFactory ex_binding) = (0, ?new)"
    by (simp add: ex_build_simps)
  have nd: "\<not> hasSourceDirective ex_env ?fh"
    by (simp add: hasSourceDirective_def ex_fieldsOf_def)
  note tB = auto_binds_body_then_query
      [OF ex_plan2_built run bytes formB refl split before a bodyB,
        where ?b0.0 = ex_binding and fh = ?fh and ?r0.0 = newReceiver and ?e0.0 = "[]"
          and ?m0.0 = "[]" and ?r1.0 = ex_plan2 and ?e1.0 = "[]" and ?m1.0 = "[]" and i = 0
          and ?r2.0 = ?new]
  note tQ = auto_binds_body_then_query
      [OF ex_plan2_built run bytes formQ refl split before a bodyQ]
  have r1: "bind ex_env ex_binding (VStruct 2 True) ex_req_both Map.empty [] =
              ((False, None), ?b2, [(''Name'', ''b'')])"
    using tB [THEN conjunct1] by (simp add: ex_plan2_def)
  have r2: "bind ex_env ex_binding (VStruct 2 True) ex_req_query Map.empty [] =
              ((False, None), ?b2, [(''Name'', ''q'')])"
    using tQ [THEN conjunct2, THEN conjunct1] queryQ by (simp add: ex_plan2_def dropFound_def)
  have r3: "p_in (params ex_plan2 ! 0) = auto"
    using tB [THEN conjunct2, THEN conjunct2] ns cb g nd by simp
  have q: "getQuery ex_env ex_plan2 ex_req_both ''Name'' = Some [''q'']"
    by (simp add: ex_env_def ex_req_both_def)
  from r1 q r2 cb nd r3 show ?thesis by (intro conjI)
qed

text \<open>
  Claim C10. Dispatch does not roll back. When the destination is a struct pointer, a plan
  is obtained, and the binder of a descriptor \<open>p\<close> fails after all descriptors before it
  were bound, \<^verbatim>\<open>Bind\<close> and \<^verbatim>\<open>BindAndValidate\<close> return the error of \<open>p\<close> together with the
  store that holds every write of the earlier descriptors (followed by whatever the failing
  binder itself did): the destination record stays partially populated.
\<close>

theorem failed_bind_keeps_earlier_writes:
  assumes ptr: "structValueOf env b sp = Inr v"
    and plan: "getObjOrPrepare env b v = (Inr recv, b')"
    and src: "gather env b' recv v req pp w = Inr src"
    and split: "params recv = ps @ p # qs"
    and before: "bindParams env src ps w = (None, w1)"
    and fails: "bindParam env src p w1 = (Some err, w2)"
  shows "Bind env b sp req pp w = (Some err, b', w2)
       \<and> BindAndValidate env b sp req pp w = (Some err, b', w2)
       \<and> w2 = snd (bindParam env src p (foldl (\<lambda>w' q. snd (bindParam env src q w')) w ps))"
proof -
  have whole: "bindParams env src (params recv) w = (Some err, w2)"
    using before fails by (simp add: split bindParams_append)
  have b: "bind env b v req pp w = ((hasVd recv, Some err), b', w2)"
    using bind_unfold [OF plan src] whole by simp
  have "w1 = foldl (\<lambda>w' q. snd (bindParam env src q w')) w ps"
    using before by (rule bindParams_success_fold)
  with fails have "w2 = snd (bindParam env src p (foldl (\<lambda>w' q. snd (bindParam env src q w')) w ps))"
    by simp
  with b ptr show ?thesis
    by (simp add: Bind_def BindAndValidate_def)
qed

theorem failed_bind_keeps_earlier_writes_witness:
  "Bind ex_env ex_binding (VPtr (VStruct 7 True)) ex_req_no_page (map_of [(''id'', [''7''])]) [] =
     (Some (BindError ''Page'' ''missing required parameter''),
      ex_binding\<lparr>recvs := (recvs ex_binding)(7 \<mapsto> ex_plan7)\<rparr>, [(''Id'', ''7'')])
   \<and> BindAndValidate ex_env ex_binding (VPtr (VStruct 7 True)) ex_req_no_page
       (map_of [(''id'', [''7''])]) [] =
     (Some (BindError ''Page'' ''missing required parameter''),
      ex_binding\<lparr>recvs := (recvs ex_binding)(7 \<mapsto> ex_plan7)\<rparr>, [(''Id'', ''7'')])"
proof -
  let ?id = "\<lparr>fieldSelector = ''Id'', p_bindErrFactory = BindError, p_in = path, name = ''id'',
          required = False\<rparr>"
  let ?page = "\<lparr>fieldSelector = ''Page'', p_bindErrFactory = BindError, p_in = query,
          name = ''page'', required = True\<rparr>"
  let ?token = "\<lparr>fieldSelector = ''Token'', p_bindErrFactory = BindError, p_in = header,
          name = ''X-Token'', required = False\<rparr>"
  have ptr: "structValueOf ex_env ex_binding (VPtr (VStruct 7 True)) = Inr (VStruct 7 True)"
    by (simp add: structValueOf_def ex_env_def)
  have split: "params ex_plan7 = [?id] @ ?page # [?token]"
    by (simp add: ex_plan7_def)
  have before: "bindParams ex_env ex_src_no_page [?id] [] = (None, [(''Id'', ''7'')])"
    by (simp add: bindParam_def ex_env_def ex_bindValues_def ex_src_no_page_def)
  have fails: "bindParam ex_env ex_src_no_page ?page [(''Id'', ''7'')] =
                 (Some (BindError ''Page'' ''missing required parameter''), [(''Id'', ''7'')])"
    by (simp add: bindParam_def ex_env_def ex_bindValues_def ex_src_no_page_def)
  show ?thesis
    using failed_bind_keeps_earlier_writes
      [OF ptr ex_plan7_built ex_gather_no_page split before fails]
    by simp
qed

subsection \<open>The plan cache\<close>

text \<open>
  Claim C3. When \<^verbatim>\<open>getObjOrPrepare\<close> returns a plan, the cache holds that plan under the
  runtime identity of the type, and every later call for a value of that type returns that
  same plan and leaves the cache as it is, whatever the collaborators would now build.
  When it returns an error, the cache is unchanged and has no entry for the type, so a later
  call for the type runs the build again and stores its plan if that build succeeds. A
  cached plan is never replaced or removed by a call, and \<^verbatim>\<open>bind\<close> changes the binding
  tool through \<^verbatim>\<open>getObjOrPrepare\<close> only.
\<close>

theorem plan_cache:
  "(getObjOrPrepare env b v = (Inr recv, b') \<longrightarrow>
      recvs b' (RuntimeTypeID env v) = Some recv
      \<and> (\<forall>env2 v2. RuntimeTypeID env2 v2 = RuntimeTypeID env v \<longrightarrow>
            getObjOrPrepare env2 b' v2 = (Inr recv, b')))
   \<and> (getObjOrPrepare env b v = (Inl err, b') \<longrightarrow>
      b' = b \<and> recvs b' (RuntimeTypeID env v) = None \<and> prepare env b v = Inl err
      \<and> (\<forall>env2 v2. RuntimeTypeID env2 v2 = RuntimeTypeID env v \<longrightarrow>
            getObjOrPrepare env2 b' v2 =
              (case prepare env2 b' v2 of
                 Inl err2 \<Rightarrow> (Inl err2, b')
               | Inr recv2 \<Rightarrow>
                   (Inr recv2, b'\<lparr>recvs := (recvs b')(RuntimeTypeID env v \<mapsto> recv2)\<rparr>))))
   \<and> (recvs b t = Some r \<longrightarrow> recvs (snd (getObjOrPrepare env b v)) t = Some r)
   \<and> fst (snd (bind env b v req pp w)) = snd (getObjOrPrepare env b v)"
proof -
  have "fst (snd (bind env b v req pp w)) = snd (getObjOrPrepare env b v)"
    by (simp add: bind_def split: prod.splits sum.splits)
  then show ?thesis
    by (auto simp: getObjOrPrepare_def Let_def split: option.splits sum.splits)
qed

theorem plan_cache_witness:
  "getObjOrPrepare ex_env ex_binding (VStruct 7 True) =
     (Inr ex_plan7, ex_binding\<lparr>recvs := (recvs ex_binding)(7 \<mapsto> ex_plan7)\<rparr>)
   \<and> getObjOrPrepare (ex_env\<lparr>RunZero := \<lambda>f v. Inl (BindError [] ''no'')\<rparr>)
         (ex_binding\<lparr>recvs := (recvs ex_binding)(7 \<mapsto> ex_plan7)\<rparr>) (VStruct 7 False) =
     (Inr ex_plan7, ex_binding\<lparr>recvs := (recvs ex_binding)(7 \<mapsto> ex_plan7)\<rparr>)
   \<and> getObjOrPrepare ex_env ex_binding (VStruct 5 True) =
     (Inl (BindError ''secret'' ''field cannot be set: secret''), ex_binding)
   \<and> getObjOrPrepare (ex_env\<lparr>fieldsOf := \<lambda>t. []\<rparr>) ex_binding (VStruct 5 True) =
     (Inr newReceiver, ex_binding\<lparr>recvs := (recvs ex_binding)(5 \<mapsto> newReceiver)\<rparr>)"
proof -
  let ?b7 = "ex_binding\<lparr>recvs := (recvs ex_binding)(7 \<mapsto> ex_plan7)\<rparr>"
  let ?env1 = "ex_env\<lparr>RunZero := \<lambda>f v. Inl (BindError [] ''no'')\<rparr>"
  let ?env2 = "ex_env\<lparr>fieldsOf := \<lambda>t. []\<rparr>"
  let ?err = "BindError ''secret'' ''field cannot be set: secret''"
  have fail5: "getObjOrPrepare ex_env ex_binding (VStruct 5 True) = (Inl ?err, ex_binding)"
    by (simp add: ex_build_simps)
  have id1: "RuntimeTypeID ?env1 (VStruct 7 False) = RuntimeTypeID ex_env (VStruct 7 True)"
    by (simp add: ex_env_def)
  have id2: "RuntimeTypeID ?env2 (VStruct 5 True) = RuntimeTypeID ex_env (VStruct 5 True)"
    by (simp add: ex_env_def)
  have again: "prepare ?env2 ex_binding (VStruct 5 True) = Inr newReceiver"
    by (simp add: prepare_def walkFields_def ex_env_def)
  have t5: "RuntimeTypeID ex_env (VStruct 5 True) = 5"
    by (simp add: ex_env_def)
  have hit: "getObjOrPrepare ?env1 ?b7 (VStruct 7 False) = (Inr ex_plan7, ?b7)"
    using plan_cache [where env = ex_env and b = ex_binding and v = "VStruct 7 True"
        and recv = ex_plan7 and b' = ?b7 and err = ?err and t = 7 and r = ex_plan7,
        THEN conjunct1, THEN mp, OF ex_plan7_built, THEN conjunct2, THEN spec, THEN spec,
        THEN mp, OF id1] .
  have "getObjOrPrepare ?env2 ex_binding (VStruct 5 True) =
          (case prepare ?env2 ex_binding (VStruct 5 True) of
             Inl err2 \<Rightarrow> (Inl err2, ex_binding)
           | Inr recv2 \<Rightarrow>
               (Inr recv2,
                ex_binding\<lparr>recvs := (recvs ex_binding)(RuntimeTypeID ex_env (VStruct 5 True) \<mapsto> recv2)\<rparr>))"
    using plan_cache [where env = ex_env and b = ex_binding and v = "VStruct 5 True"
        and err = ?err and b' = ex_binding and recv = ex_plan7 and t = 7 and r = ex_plan7,
        THEN conjunct2, THEN conjunct1, THEN mp, OF fail5, THEN conjunct2, THEN conjunct2,
        THEN conjunct2, THEN spec, THEN spec, THEN mp, OF id2] .
  then have retry: "getObjOrPrepare ?env2 ex_binding (VStruct 5 True) =
                 (Inr newReceiver, ex_binding\<lparr>recvs := (recvs ex_binding)(5 \<mapsto> newReceiver)\<rparr>)"
    unfolding again t5 by simp
  from ex_plan7_built hit fail5 retry show ?thesis by (intro conjI)
qed

subsection \<open>The validation trigger\<close>

text \<open>No function below \<^verbatim>\<open>BindAndValidate\<close> calls the validator.\<close>

lemma evalsLoop_no_Validate:
  "evalsLoop (env\<lparr>vd_Validate := V\<rparr>) i evals s = evalsLoop env i evals s"
proof (induction evals arbitrary: s)
  case Nil
  then show ?case by simp
next
  case (Cons a evals)
  have "evalStep (env\<lparr>vd_Validate := V\<rparr>) i a s = evalStep env i a s"
    by (simp add: evalStep_def cong: if_cong option.case_cong prod.case_cong)
  with Cons.IH show ?case by (simp split: prod.splits bool.splits)
qed

lemma fieldCallback_no_Validate:
  "fieldCallback (env\<lparr>vd_Validate := V\<rparr>) b = fieldCallback env b"
  by (intro ext)
    (simp add: fieldCallback_def skipField_def canHandle_def evalsLoop_no_Validate
      cong: if_cong option.case_cong prod.case_cong bool.case_cong)

lemma getObjOrPrepare_no_Validate:
  "getObjOrPrepare (env\<lparr>vd_Validate := V\<rparr>) b v = getObjOrPrepare env b v"
  by (simp add: getObjOrPrepare_def prepare_def walkFields_def fieldCallback_no_Validate
      cong: if_cong option.case_cong prod.case_cong sum.case_cong)

lemma bindParams_no_Validate:
  "bindParams (env\<lparr>vd_Validate := V\<rparr>) src ps w = bindParams env src ps w"
proof (induction ps arbitrary: w)
  case Nil
  then show ?case by simp
next
  case (Cons p ps)
  have "bindParam (env\<lparr>vd_Validate := V\<rparr>) src p w = bindParam env src p w"
    by (simp add: bindParam_def cong: if_cong in_t.case_cong prod.case_cong)
  with Cons.IH show ?case by (simp split: prod.splits option.splits)
qed

lemma bind_no_Validate:
  "bind (env\<lparr>vd_Validate := V\<rparr>) b v req pp w = bind env b v req pp w"
  by (simp add: bind_def gather_def getObjOrPrepare_no_Validate bindParams_no_Validate
      cong: if_cong option.case_cong prod.case_cong sum.case_cong)

lemma structValueOf_no_Validate:
  "structValueOf (env\<lparr>vd_Validate := V\<rparr>) b sp = structValueOf env b sp"
  by (simp add: structValueOf_def cong: if_cong option.case_cong)

text \<open>
  Claim C7, as amended. Let the destination be a struct pointer and let \<^verbatim>\<open>bind\<close> return
  the flag \<open>h\<close> and the error \<open>err\<close>. \<^verbatim>\<open>BindAndValidate\<close> returns the result of the
  validator, run on the bound record, when \<open>err\<close> is \<^verbatim>\<open>nil\<close> and \<open>h\<close> is set, and returns
  \<open>err\<close> otherwise; in the first case its result is whatever the validator returns, in the
  second it does not depend on the validator, which is therefore not run. After a plan was
  obtained and the per-request values were gathered, \<open>h\<close> is the \<^verbatim>\<open>hasVd\<close> flag of the
  plan. The walk of the plan builder sets that flag exactly when some field that the
  traversal policy does not skip carries a validation sub-expression.
\<close>

theorem validation_trigger:
  assumes ptr: "structValueOf env b sp = Inr v"
    and bnd: "bind env b v req pp w = ((h, err), b', w')"
  shows "BindAndValidate env b sp req pp w =
           ((if err = None \<and> h then vd_Validate env (vd b') v w' else err), b', w')
   \<and> (err \<noteq> None \<or> \<not> h \<longrightarrow>
        BindAndValidate (env\<lparr>vd_Validate := V\<rparr>) b sp req pp w = (err, b', w'))
   \<and> (err = None \<and> h \<longrightarrow>
        BindAndValidate (env\<lparr>vd_Validate := V\<rparr>) b sp req pp w = (V (vd b') v w', b', w'))
   \<and> (getObjOrPrepare env b v = (Inr recv, b'') \<and> gather env b'' recv v req pp w = Inr src \<longrightarrow>
        h = hasVd recv \<and> b' = b'')
   \<and> (RunZero env (vd b) v = Inr expr \<and> walkFields env b expr = (recv0, es, []) \<longrightarrow>
        prepare env b v = Inr (initParams env recv0)
        \<and> hasVd recv0 =
            list_ex (carries env (MatchExprName env)) (visited env b (fieldsOf env expr)))"
proof -
  have 1: "BindAndValidate env b sp req pp w =
           ((if err = None \<and> h then vd_Validate env (vd b') v w' else err), b', w')"
    using ptr bnd by (cases err) (simp_all add: BindAndValidate_def)
  have ptr': "structValueOf (env\<lparr>vd_Validate := V\<rparr>) b sp = Inr v"
    using ptr by (simp add: structValueOf_no_Validate)
  have bnd': "bind (env\<lparr>vd_Validate := V\<rparr>) b v req pp w = ((h, err), b', w')"
    using bnd by (simp add: bind_no_Validate)
  have V: "BindAndValidate (env\<lparr>vd_Validate := V\<rparr>) b sp req pp w =
           ((if err = None \<and> h then V (vd b') v w' else err), b', w')"
    using ptr' bnd' by (cases err) (simp_all add: BindAndValidate_def)
  have 2: "err \<noteq> None \<or> \<not> h \<longrightarrow>
        BindAndValidate (env\<lparr>vd_Validate := V\<rparr>) b sp req pp w = (err, b', w')"
    using V by auto
  have 3: "err = None \<and> h \<longrightarrow>
        BindAndValidate (env\<lparr>vd_Validate := V\<rparr>) b sp req pp w = (V (vd b') v w', b', w')"
    using V by auto
  have 4: "getObjOrPrepare env b v = (Inr recv, b'') \<and> gather env b'' recv v req pp w = Inr src \<longrightarrow>
        h = hasVd recv \<and> b' = b''"
  proof
    assume a: "getObjOrPrepare env b v = (Inr recv, b'') \<and> gather env b'' recv v req pp w = Inr src"
    then have "bind env b v req pp w =
           ((hasVd recv, fst (bindParams env src (params recv) w)), b'',
            snd (bindParams env src (params recv) w))"
      by (simp add: bind_unfold)
    with bnd show "h = hasVd recv \<and> b' = b''" by simp
  qed
  have 5: "RunZero env (vd b) v = Inr expr \<and> walkFields env b expr = (recv0, es, []) \<longrightarrow>
        prepare env b v = Inr (initParams env recv0)
        \<and> hasVd recv0 =
            list_ex (carries env (MatchExprName env)) (visited env b (fieldsOf env expr))"
  proof
    assume a: "RunZero env (vd b) v = Inr expr \<and> walkFields env b expr = (recv0, es, [])"
    then have run: "RunZero env (vd b) v = Inr expr"
      and walk: "walkFields env b expr = (recv0, es, [])"
      by simp_all
    from prepare_success [OF run walk] walkFields_flags [OF walk]
    show "prepare env b v = Inr (initParams env recv0)
        \<and> hasVd recv0 =
            list_ex (carries env (MatchExprName env)) (visited env b (fieldsOf env expr))"
      by simp
  qed
  from 1 2 3 4 5 show ?thesis by (intro conjI)
qed

theorem validation_trigger_witness:
  "BindAndValidate ex_env ex_binding (VPtr (VStruct 10 True)) ex_req_page0 Map.empty [] =
     (Some (ValidateError ''Page'' ''invalid''),
      ex_binding\<lparr>recvs := (recvs ex_binding)(10 \<mapsto> ex_plan10)\<rparr>, [(''Page'', ''0'')])
   \<and> hasVd ex_plan10
   \<and> list_ex (carries ex_env (MatchExprName ex_env)) (visited ex_env ex_binding (fieldsOf ex_env 10))
   \<and> BindAndValidate (ex_env\<lparr>vd_Validate := \<lambda>f v w. Some (ValidateError ''any'' ''fails'')\<rparr>)
       ex_binding (VPtr (VStruct 7 True)) ex_req_no_page (map_of [(''id'', [''7''])]) [] =
     (Some (BindError ''Page'' ''missing required parameter''),
      ex_binding\<lparr>recvs := (recvs ex_binding)(7 \<mapsto> ex_plan7)\<rparr>, [(''Id'', ''7'')])
   \<and> BindAndValidate (ex_env\<lparr>vd_Validate := \<lambda>f v w. Some (ValidateError ''any'' ''fails'')\<rparr>)
       ex_binding (VPtr (VStruct 2 True)) ex_req_both Map.empty [] =
     (None, ex_binding\<lparr>recvs := (recvs ex_binding)(2 \<mapsto> ex_plan2)\<rparr>, [(''Name'', ''b'')])
   \<and> \<not> hasVd ex_plan2"
proof -
  let ?V = "\<lambda>(f :: ex_error errFactory) (v :: ex_value) (w :: ex_store).
              Some (ValidateError ''any'' ''fails'')"
  let ?b10 = "ex_binding\<lparr>recvs := (recvs ex_binding)(10 \<mapsto> ex_plan10)\<rparr>"
  let ?b7 = "ex_binding\<lparr>recvs := (recvs ex_binding)(7 \<mapsto> ex_plan7)\<rparr>"
  let ?b2 = "ex_binding\<lparr>recvs := (recvs ex_binding)(2 \<mapsto> ex_plan2)\<rparr>"
  have ptr: "\<And>t. structValueOf ex_env ex_binding (VPtr (VStruct t True)) = Inr (VStruct t True)"
    by (simp add: structValueOf_def ex_env_def)
  have run10: "RunZero ex_env (vd ex_binding) (VStruct 10 True) = Inr 10"
    by (simp add: ex_env_def)
  have walk10: "walkFields ex_env ex_binding 10 = (ex_plan10, [], [])"
    by (simp add: ex_build_simps ex_plan10_def)
  have bind10: "bind ex_env ex_binding (VStruct 10 True) ex_req_page0 Map.empty [] =
                  ((True, None), ?b10, [(''Page'', ''0'')])"
    by (simp add: bind_def gather_def bindParam_def ex_bindValues_def ex_build_simps
        ex_plan10_def ex_req_page0_def)
  have bind7: "bind ex_env ex_binding (VStruct 7 True) ex_req_no_page (map_of [(''id'', [''7''])]) [] =
                  ((False, Some (BindError ''Page'' ''missing required parameter'')), ?b7,
                   [(''Id'', ''7'')])"
    by (simp add: bind_def gather_def bindParam_def ex_bindValues_def ex_build_simps
        ex_plan7_def ex_req_no_page_def)
  have bind2: "bind ex_env ex_binding (VStruct 2 True) ex_req_both Map.empty [] =
                  ((False, None), ?b2, [(''Name'', ''b'')])"
    by (simp add: bind_def gather_def bindParam_def ex_bindValues_def ex_build_simps
        ex_plan2_def ex_req_both_def)
  note t10 = validation_trigger [OF ptr bind10, where expr = 10 and ?recv0.0 = ex_plan10
      and es = "[]"]
  note t7 = validation_trigger [OF ptr bind7, where V = ?V]
  note t2 = validation_trigger [OF ptr bind2, where V = ?V]
  have a: "BindAndValidate ex_env ex_binding (VPtr (VStruct 10 True)) ex_req_page0 Map.empty [] =
     (Some (ValidateError ''Page'' ''invalid''), ?b10, [(''Page'', ''0'')])"
    using t10 [THEN conjunct1] by (simp add: ex_env_def ex_Validate_def ex_binding_def)
  have b: "hasVd ex_plan10" by (simp add: ex_plan10_def)
  have c: "list_ex (carries ex_env (MatchExprName ex_env))
             (visited ex_env ex_binding (fieldsOf ex_env 10))"
    using t10 [THEN conjunct2, THEN conjunct2, THEN conjunct2, THEN conjunct2] run10 walk10 b
    by simp
  have d: "BindAndValidate (ex_env\<lparr>vd_Validate := ?V\<rparr>) ex_binding (VPtr (VStruct 7 True))
             ex_req_no_page (map_of [(''id'', [''7''])]) [] =
           (Some (BindError ''Page'' ''missing required parameter''), ?b7, [(''Id'', ''7'')])"
    using t7 [THEN conjunct2, THEN conjunct1] by simp
  have e: "BindAndValidate (ex_env\<lparr>vd_Validate := ?V\<rparr>) ex_binding (VPtr (VStruct 2 True))
             ex_req_both Map.empty [] = (None, ?b2, [(''Name'', ''b'')])"
    using t2 [THEN conjunct2, THEN conjunct1] by simp
  have f: "\<not> hasVd ex_plan2" by (simp add: ex_plan2_def)
  from a b c d e f show ?thesis by (intro conjI)
qed

text \<open>
  The claim as stated, with the flag set as soon as some field carries a validation
  sub-expression, fails under the default level \<^verbatim>\<open>FirstAndTagged\<close>: in the type 3 of the
  instance the only validation rule is on a nested field with no source directive, the
  field is skipped, the flag stays unset, and \<^verbatim>\<open>BindAndValidate\<close> succeeds although the
  validator rejects the record.
\<close>

theorem validation_flag_counterexample:
  "list_ex (carries ex_env (MatchExprName ex_env)) (fieldsOf ex_env 3)
   \<and> map_sum id hasVd (prepare ex_env ex_binding (VStruct 3 True)) = Inr False
   \<and> fst (BindAndValidate ex_env ex_binding (VPtr (VStruct 3 True))
            \<lparr>rq_query = [], rq_form = [], rq_header = []\<rparr> Map.empty []) = None
   \<and> vd_Validate ex_env (vd ex_binding) (VStruct 3 True) [] =
       Some (ValidateError ''Info.Age'' ''invalid'')"
  by (simp add: BindAndValidate_def structValueOf_def bind_def gather_def bindParam_def
      ex_bindValues_def ex_build_simps carries_def ex_Validate_def)

section \<open>Further properties\<close>

text \<open>
  Property X1. \<^verbatim>\<open>Bind\<close> never runs the validator: its result does not depend on it, also
  for a record type whose plan carries validation rules.
\<close>

theorem Bind_never_validates:
  "Bind (env\<lparr>vd_Validate := V\<rparr>) b sp req pp w = Bind env b sp req pp w"
  by (simp add: Bind_def structValueOf_no_Validate bind_no_Validate cong: sum.case_cong)

theorem Bind_never_validates_witness:
  "Bind (ex_env\<lparr>vd_Validate := \<lambda>f v w. Some (ValidateError ''any'' ''fails'')\<rparr>) ex_binding
     (VPtr (VStruct 10 True)) ex_req_page0 Map.empty [] =
     (None, ex_binding\<lparr>recvs := (recvs ex_binding)(10 \<mapsto> ex_plan10)\<rparr>, [(''Page'', ''0'')])
   \<and> hasVd ex_plan10"
proof -
  have "Bind ex_env ex_binding (VPtr (VStruct 10 True)) ex_req_page0 Map.empty [] =
     (None, ex_binding\<lparr>recvs := (recvs ex_binding)(10 \<mapsto> ex_plan10)\<rparr>, [(''Page'', ''0'')])"
    by (simp add: Bind_def structValueOf_def bind_def gather_def bindParam_def
        ex_bindValues_def ex_build_simps ex_plan10_def ex_req_page0_def)
  moreover have "hasVd ex_plan10" by (simp add: ex_plan10_def)
  ultimately show ?thesis
    using Bind_never_validates
      [where env = ex_env and V = "\<lambda>f v w. Some (ValidateError ''any'' ''fails'')"
        and b = ex_binding and sp = "VPtr (VStruct 10 True)" and req = ex_req_page0
        and pp = Map.empty and w = "[]"]
    by simp
qed

text \<open>A callback that lets the walk go on leaves the error message empty, so the walk
  over a prefix that ends without an error message is followed by the walk over the
  rest.\<close>

lemma fieldCallback_continue_msg:
  assumes "fieldCallback env b fh (recv, e, []) = (True, (r1, e1, m1))"
  shows "m1 = []"
proof (cases "skipField env (level b) fh")
  case True
  with assms show ?thesis by (simp add: fieldCallback_skipped)
next
  case False
  from fieldCallback_flags [OF False assms] show ?thesis by simp
qed

lemma RangeFields_append_ok:
  "RangeFields (fieldCallback env b) pre (recv, e, []) = (r, e', []) \<Longrightarrow>
   RangeFields (fieldCallback env b) (pre @ rest) (recv, e, []) =
     RangeFields (fieldCallback env b) rest (r, e', [])"
proof (induction pre arbitrary: recv e)
  case Nil
  then show ?case by simp
next
  case (Cons fh pre)
  obtain ok r1 e1 m1 where cb: "fieldCallback env b fh (recv, e, []) = (ok, (r1, e1, m1))"
    by (metis prod_cases4)
  have ok: "ok"
  proof (rule ccontr)
    assume "\<not> ok"
    with cb have c: "fieldCallback env b fh (recv, e, []) = (False, (r1, e1, m1))" by simp
    then have "m1 \<noteq> []" by (rule fieldCallback_failure)
    moreover from Cons.prems c have "m1 = []" by simp
    ultimately show False by simp
  qed
  with cb have cb': "fieldCallback env b fh (recv, e, []) = (True, (r1, e1, m1))" by simp
  then have m1: "m1 = []" by (rule fieldCallback_continue_msg)
  from Cons.prems cb' m1
  have "RangeFields (fieldCallback env b) pre (r1, e1, []) = (r, e', [])" by simp
  from Cons.IH [OF this] cb' m1 show ?case by simp
qed

text \<open>
  Property X2. A field that the traversal policy does not skip and that cannot be set is
  fatal for the build: when the fields before it were walked without an error, the build
  fails with the error that the bind-error factory makes of the selector of the field and
  the message \<^verbatim>\<open>field cannot be set: \<close> followed by the selector.
\<close>

theorem unsettable_field_fails_build:
  assumes run: "RunZero env (vd b) v = Inr expr"
    and fields: "fieldsOf env expr = pre @ fh # post"
    and pre_ok: "RangeFields (fieldCallback env b) pre (newReceiver, [], []) = (r, e, [])"
    and ns: "\<not> skipField env (level b) fh"
    and cs: "\<not> Value_CanSet fh"
  shows "prepare env b v =
           Inl (bindErrFactory b (es_String env (StringSelector fh))
                  (''field cannot be set: '' @ StringSelector fh))"
proof -
  have "walkFields env b expr =
          RangeFields (fieldCallback env b) (fh # post) (r, e, [])"
    unfolding walkFields_def fields using pre_ok by (rule RangeFields_append_ok)
  also have "\<dots> = (r, StringSelector fh, ''field cannot be set: '' @ StringSelector fh)"
    using ns cs by (simp add: fieldCallback_cannot_set)
  finally show ?thesis
    using run by (simp add: prepare_def)
qed

theorem unsettable_field_fails_build_witness:
  "prepare ex_env ex_binding (VStruct 5 True) =
     Inl (BindError ''secret'' ''field cannot be set: secret'')"
proof -
  have run: "RunZero ex_env (vd ex_binding) (VStruct 5 True) = Inr 5"
    by (simp add: ex_env_def)
  have fields: "fieldsOf ex_env 5 = [ex_fieldsOf 5 ! 0] @ (ex_fieldsOf 5 ! 1) # []"
    by (simp add: ex_env_def ex_fieldsOf_def)
  have pre_ok: "RangeFields (fieldCallback ex_env ex_binding) [ex_fieldsOf 5 ! 0]
                  (newReceiver, [], []) =
                (\<lparr>params =
                    [\<lparr>fieldSelector = ''Id'', p_bindErrFactory = BindError, p_in = path,
                      name = ''id'', required = False\<rparr>],
                  hasAuto = False, hasQuery = False, hasCookie = False, hasPath = True,
                  hasBody = False, hasRawBody = False, hasVd = False\<rparr>, [], [])"
    by (simp add: ex_build_simps)
  have ns: "\<not> skipField ex_env (level ex_binding) (ex_fieldsOf 5 ! 1)"
    by (simp add: ex_build_simps)
  have cs: "\<not> Value_CanSet (ex_fieldsOf 5 ! 1)"
    by (simp add: ex_fieldsOf_def)
  show ?thesis
    using unsettable_field_fails_build [OF run fields pre_ok ns cs]
    by (simp add: ex_fieldsOf_def ex_env_def ex_binding_def)
qed

text \<open>Without a source directive among the remaining sub-expressions, the loop keeps
  \<^verbatim>\<open>in\<close> and \<^verbatim>\<open>name\<close>.\<close>

lemma evalsLoop_append:
  "evalsLoop env i (xs @ ys) s =
     (case evalsLoop env i xs s of
        (True, s') \<Rightarrow> evalsLoop env i ys s'
      | (False, s') \<Rightarrow> (False, s'))"
  by (induction xs arbitrary: s) (auto split: prod.splits bool.splits)

lemma evalsLoop_in_kept:
  "evalsLoop env i evals (recv, in0, n0, e0, m0) = (True, (recv', in1, n1, e1, m1)) \<Longrightarrow>
   \<not> list_ex (\<lambda>(es, eval). reachesSource env (es_Name env es)) evals \<Longrightarrow>
   in1 = in0 \<and> n1 = n0"
proof (induction evals arbitrary: recv in0 n0 e0 m0)
  case Nil
  then show ?case by simp
next
  case (Cons a evals)
  obtain es eval where a: "a = (es, eval)" by (cases a)
  obtain ok2 rs i2 n2 e2 m2 where
    st: "evalStep env i (es, eval) (recv, in0, n0, e0, m0) = (ok2, (rs, i2, n2, e2, m2))"
    by (metis prod_cases5)
  have ok2: "ok2" using Cons.prems(1) st a by (cases ok2) simp_all
  with Cons.prems(1) st a
  have rest: "evalsLoop env i evals (rs, i2, n2, e2, m2) = (True, (recv', in1, n1, e1, m1))"
    by simp
  have no: "\<not> reachesSource env (es_Name env es)"
    and no': "\<not> list_ex (\<lambda>(es, eval). reachesSource env (es_Name env es)) evals"
    using Cons.prems(2) by (simp_all add: a)
  from st no have "i2 = in0 \<and> n2 = n0"
    by (cases rule: evalStep_cases) simp_all
  with Cons.IH [OF rest no'] show ?case by simp
qed

lemma sourceCase_in:
  "sourceCase n r = Some (r', x) \<Longrightarrow> map_option snd (sourceCase n r0) = Some x"
  by (auto simp: sourceCase_def split: if_splits)

text \<open>
  Property X3. When a field carries several source directives, the one met last by the
  loop over the sub-expressions decides the source of the descriptor: if the loop ends
  without an error and no source directive follows the entry \<open>es\<close>, the final \<^verbatim>\<open>in\<close> is
  the source that the case of \<open>es\<close> assigns. The order is that of the iteration over a Go
  map, so two runs over the same sub-expressions can end with different sources.
\<close>

theorem last_source_directive_wins:
  assumes run: "evalsLoop env i (pre @ (es, ev) # post) s = (True, (recv', in1, n1, e1, m1))"
    and src: "reachesSource env (es_Name env es)"
    and last: "\<not> list_ex (\<lambda>(es', ev'). reachesSource env (es_Name env es')) post"
  shows "map_option snd (sourceCase (es_Name env es) newReceiver) = Some in1"
proof -
  obtain ok1 ra ia na ea ma where
    p: "evalsLoop env i pre s = (ok1, (ra, ia, na, ea, ma))"
    by (metis prod_cases5)
  have ok1: "ok1" using run p by (cases ok1) (simp_all add: evalsLoop_append)
  obtain ok2 rb ib nb eb mb where
    st: "evalStep env i (es, ev) (ra, ia, na, ea, ma) = (ok2, (rb, ib, nb, eb, mb))"
    by (metis prod_cases5)
  have ok2: "ok2" using run p ok1 st by (cases ok2) (simp_all add: evalsLoop_append)
  have rest: "evalsLoop env i post (rb, ib, nb, eb, mb) = (True, (recv', in1, n1, e1, m1))"
    using run p ok1 st ok2 by (simp add: evalsLoop_append)
  from st src have sc: "sourceCase (es_Name env es) ra = Some (rb, ib)"
    by (cases rule: evalStep_cases) simp_all
  from evalsLoop_in_kept [OF rest last] have "in1 = ib" by simp
  with sourceCase_in [OF sc, of newReceiver] show ?thesis by (simp only:)
qed

theorem last_source_directive_wins_witness:
  "fst (snd (snd (evalsLoop ex_env 0
     [(''F@query'', RString ''a''), (''F@path'', RString ''b''), (''F@required'', RBool True)]
     (newReceiver, auto, ''F'', [], [])))) = path
   \<and> fst (snd (snd (evalsLoop ex_env 0
     [(''F@path'', RString ''b''), (''F@query'', RString ''a''), (''F@required'', RBool True)]
     (newReceiver, auto, ''F'', [], [])))) = query"
proof -
  let ?s = "(newReceiver, auto, ''F'', [], []) :: ex_error loopState"
  let ?r = "\<lparr>params = [], hasAuto = False, hasQuery = True, hasCookie = False, hasPath = True,
             hasBody = False, hasRawBody = False, hasVd = False\<rparr> :: ex_error receiver"
  have a: "evalsLoop ex_env 0
     ([(''F@query'', RString ''a'')] @ (''F@path'', RString ''b'') # [(''F@required'', RBool True)])
     ?s = (True, (?r, path, ''b'', [], []))"
    by (simp add: ex_build_simps)
  have b: "evalsLoop ex_env 0
     ([(''F@path'', RString ''b'')] @ (''F@query'', RString ''a'') # [(''F@required'', RBool True)])
     ?s = (True, (?r, query, ''a'', [], []))"
    by (simp add: ex_build_simps)
  have sa: "reachesSource ex_env (es_Name ex_env ''F@path'')"
    and sb: "reachesSource ex_env (es_Name ex_env ''F@query'')"
    by (simp_all add: reachesSource_def ex_env_def ex_Name_def)
  have l: "\<not> list_ex (\<lambda>(es', ev'). reachesSource ex_env (es_Name ex_env es'))
             [(''F@required'', RBool True)]"
    by (simp add: reachesSource_def ex_env_def ex_Name_def)
  from last_source_directive_wins [OF a sa l] last_source_directive_wins [OF b sb l] a b
  show ?thesis by simp
qed

text \<open>
  Property X4. For any binders: when a plan is obtained and the three fallible steps
  before the loop succeed, the destination at the turn of a descriptor \<open>p\<close> whose
  predecessors were bound without error is the result of their steps in plan order; the
  step of \<open>p\<close> is the binder that matches the source of \<open>p\<close>, called on the values \<^verbatim>\<open>bind\<close>
  computed from the request; and \<^verbatim>\<open>bind\<close> returns the error and the destination of that
  step when it fails, and goes on with the descriptors after \<open>p\<close> when it succeeds.
\<close>

theorem bind_runs_matching_binders:
  assumes plan: "getObjOrPrepare env b v = (Inr recv, b')"
    and run: "Run env (vd b') v w = Inr expr"
    and bytes: "getBodyBytes env recv req (getBodyCodec env recv req = jsonBody env) = Inr bodyBytes"
    and form: "getPostForm env recv req (getBodyCodec env recv req = formBody env) = Inr postForm"
    and src: "src = requestValues env recv req pp expr bodyBytes postForm"
    and split: "params recv = ps @ p # qs"
    and before: "bindParams env src ps w = (None, w1)"
  shows "w1 = foldl (\<lambda>w' q. snd (bindParam env src q w')) w ps
   \<and> bindParam env src p w1 =
       (case p_in p of
          query \<Rightarrow> dropFound (bindQuery env p expr (getQuery env recv req) w1)
        | path \<Rightarrow> dropFound (bindPath env p expr pp w1)
        | header \<Rightarrow> dropFound (bindHeader env p expr (req_Header env req) w1)
        | cookie \<Rightarrow> bindCookie env p expr (getCookies env recv req) w1
        | body \<Rightarrow>
            dropFound (bindBody env p expr (getBodyCodec env recv req) postForm bodyBytes w1)
        | raw_body \<Rightarrow> bindRawBody env p expr bodyBytes w1
        | auto \<Rightarrow>
            (if fst (fst (bindBody env p expr (getBodyCodec env recv req) postForm bodyBytes w1))
             then dropFound
                    (bindBody env p expr (getBodyCodec env recv req) postForm bodyBytes w1)
             else dropFound
                    (bindQuery env p expr (getQuery env recv req)
                       (snd (bindBody env p expr (getBodyCodec env recv req) postForm
                               bodyBytes w1)))))
   \<and> bind env b v req pp w =
       (case bindParam env src p w1 of
          (Some err, w2) \<Rightarrow> ((hasVd recv, Some err), b', w2)
        | (None, w2) \<Rightarrow>
            ((hasVd recv, fst (bindParams env src qs w2)), b', snd (bindParams env src qs w2)))"
proof -
  have fold: "w1 = foldl (\<lambda>w' q. snd (bindParam env src q w')) w ps"
    using before by (rule bindParams_success_fold)
  note step = bindParam_dispatch [of env recv req pp expr bodyBytes postForm p w1, folded src]
  note at = bind_at_descriptor [OF plan run bytes form src split before]
  from fold step at show ?thesis by (intro conjI)
qed

theorem bind_runs_matching_binders_witness:
  "bind ex_env ex_binding (VStruct 7 True) ex_req_no_page (map_of [(''id'', [''7''])]) [] =
     ((False, Some (BindError ''Page'' ''missing required parameter'')),
      ex_binding\<lparr>recvs := (recvs ex_binding)(7 \<mapsto> ex_plan7)\<rparr>, [(''Id'', ''7'')])
   \<and> req_Header ex_env ex_req_no_page ''X-Token'' = Some [''abc'']"
proof -
  let ?id = "\<lparr>fieldSelector = ''Id'', p_bindErrFactory = BindError, p_in = path, name = ''id'',
          required = False\<rparr> :: ex_error paramInfo"
  let ?page = "\<lparr>fieldSelector = ''Page'', p_bindErrFactory = BindError, p_in = query,
          name = ''page'', required = True\<rparr> :: ex_error paramInfo"
  let ?token = "\<lparr>fieldSelector = ''Token'', p_bindErrFactory = BindError, p_in = header,
          name = ''X-Token'', required = False\<rparr> :: ex_error paramInfo"
  let ?b7 = "ex_binding\<lparr>recvs := (recvs ex_binding)(7 \<mapsto> ex_plan7)\<rparr>"
  let ?pp = "map_of [(''id'', [''7''])] :: Values"
  let ?src = "requestValues ex_env ex_plan7 ex_req_no_page ?pp 7 [] Map.empty"
  have run: "Run ex_env (vd ?b7) (VStruct 7 True) [] = Inr 7"
    by (simp add: ex_env_def)
  have bytes: "getBodyBytes ex_env ex_plan7 ex_req_no_page
                 (getBodyCodec ex_env ex_plan7 ex_req_no_page = jsonBody ex_env) = Inr []"
    by (simp add: ex_env_def)
  have form: "getPostForm ex_env ex_plan7 ex_req_no_page
                 (getBodyCodec ex_env ex_plan7 ex_req_no_page = formBody ex_env) = Inr Map.empty"
    by (simp add: ex_env_def ex_req_no_page_def)
  have split: "params ex_plan7 = [?id] @ ?page # [?token]"
    by (simp add: ex_plan7_def)
  have before: "bindParams ex_env ?src [?id] [] = (None, [(''Id'', ''7'')])"
    by (simp add: bindParam_def requestValues_def ex_env_def ex_bindValues_def)
  have fails: "bindParam ex_env ?src ?page [(''Id'', ''7'')] =
                 (Some (BindError ''Page'' ''missing required parameter''), [(''Id'', ''7'')])"
    by (simp add: bindParam_def requestValues_def ex_env_def ex_bindValues_def
        ex_req_no_page_def)
  note inst = bind_runs_matching_binders
      [OF ex_plan7_built run bytes form refl split before, THEN conjunct2, THEN conjunct2]
  have "bind ex_env ex_binding (VStruct 7 True) ex_req_no_page ?pp [] =
          ((False, Some (BindError ''Page'' ''missing required parameter'')), ?b7,
           [(''Id'', ''7'')])"
    using inst fails by (simp add: ex_plan7_def)
  moreover have "req_Header ex_env ex_req_no_page ''X-Token'' = Some [''abc'']"
    by (simp add: ex_env_def ex_req_no_page_def)
  ultimately show ?thesis by (intro conjI)
qed

end
